theory Spec2Isabelle
  imports Main "HOL-Library.Sublist"
begin

section \<open>Text: characters, lower-casing, substring test\<close>

text \<open>
  Python text is modelled by \<^typ>\<open>string\<close>; a character stands for a code point below 256.
  \<open>dq\<close> is the double quote character.
\<close>

abbreviation dq :: char where
  "dq \<equiv> CHR 0x22"

abbreviation backslash :: char where
  "backslash \<equiv> CHR 0x5C"

abbreviation LF :: char where
  "LF \<equiv> CHR 0x0A"

abbreviation CR :: char where
  "CR \<equiv> CHR 0x0D"

text \<open>The characters matched by \<open>\s\<close> and removed by \<open>str.strip()\<close>.\<close>

definition is_space :: "char \<Rightarrow> bool" where
  "is_space c =
     (let n = (of_char c :: nat)
      in (9 \<le> n \<and> n \<le> 13) \<or> (28 \<le> n \<and> n \<le> 32) \<or> n = 133 \<or> n = 160)"

text \<open>\<open>str.lower()\<close>, character by character.\<close>

definition lower_char :: "char \<Rightarrow> char" where
  "lower_char c =
     (let n = (of_char c :: nat)
      in if (65 \<le> n \<and> n \<le> 90) \<or> (192 \<le> n \<and> n \<le> 222 \<and> n \<noteq> 215)
         then char_of (n + 32) else c)"

definition lower :: "string \<Rightarrow> string" where
  "lower s = map lower_char s"

text \<open>\<open>str.strip()\<close>.\<close>

definition strip :: "string \<Rightarrow> string" where
  "strip s = rev (dropWhile is_space (rev (dropWhile is_space s)))"

text \<open>\<open>needle in hay\<close> for two texts.\<close>

fun py_in :: "string \<Rightarrow> string \<Rightarrow> bool" where
  "py_in needle [] = (needle = [])"
| "py_in needle (c # cs) = (prefix needle (c # cs) \<or> py_in needle cs)"

section \<open>The pattern \<open>availability_domain\s*=\s*"[^"]*"\<close>\<close>

text \<open>
  \<open>match_here s\<close> matches the pattern at the start of \<open>s\<close> and returns the text of the
  group \<open>[^"]*\<close> together with what follows the match. Neither \<open>=\<close> nor the quote is a
  space and the group excludes the quote, so the greedy repetitions never give back a
  character: the match at a position is unique.
\<close>

definition match_here :: "string \<Rightarrow> (string \<times> string) option" where
  "match_here s =
     (if prefix ''availability_domain'' s then
        (case dropWhile is_space (drop 19 s) of
           [] \<Rightarrow> None
         | e # s2 \<Rightarrow>
            if e = CHR ''='' then
              (case dropWhile is_space s2 of
                 [] \<Rightarrow> None
               | q # s4 \<Rightarrow>
                  if q = dq then
                    (case dropWhile (\<lambda>c. c \<noteq> dq) s4 of
                       [] \<Rightarrow> None
                     | _ # rest \<Rightarrow> Some (takeWhile (\<lambda>c. c \<noteq> dq) s4, rest))
                  else None)
            else None)
      else None)"

text \<open>\<open>re.search(pattern, content)\<close>: group 1 of the leftmost match.\<close>

fun re_search :: "string \<Rightarrow> string option" where
  "re_search [] = None"
| "re_search (c # cs) =
     (case match_here (c # cs) of
        Some (v, rest) \<Rightarrow> Some v
      | None \<Rightarrow> re_search cs)"

text \<open>
  All non-overlapping matches, from the left, each replaced by what \<open>f\<close> makes of the
  matched text; everything between the matches is kept.
\<close>

function sub_all :: "(string \<Rightarrow> string) \<Rightarrow> string \<Rightarrow> string" where
  "sub_all f [] = []"
| "sub_all f (c # cs) =
     (case match_here (c # cs) of
        Some (v, rest) \<Rightarrow> f (take (length (c # cs) - length rest) (c # cs)) @ sub_all f rest
      | None \<Rightarrow> c # sub_all f cs)"
  by pat_completeness auto
termination
proof -
  have dw: "length (dropWhile P xs) \<le> length xs" for P and xs :: string
    by (rule length_dropWhile_le)
  have shorter: "length rest < length s" if m: "match_here s = Some (v, rest)" for s v rest
  proof -
    from m obtain e s2 where 1: "dropWhile is_space (drop 19 s) = e # s2"
      by (auto simp: match_here_def split: if_splits list.splits)
    with m obtain q s4 where 2: "dropWhile is_space s2 = q # s4"
      by (auto simp: match_here_def split: if_splits list.splits)
    with m 1 obtain x where 3: "dropWhile (\<lambda>c. c \<noteq> dq) s4 = x # rest"
      by (auto simp: match_here_def split: if_splits list.splits)
    have "length rest < length s4"
      using dw [of "\<lambda>c. c \<noteq> dq" s4] 3 by simp
    also have "length s4 < length s2"
      using dw [of is_space s2] 2 by simp
    also have "length s2 < length (drop 19 s)"
      using dw [of is_space "drop 19 s"] 1 by simp
    also have "\<dots> \<le> length s" by simp
    finally show ?thesis .
  qed
  show ?thesis
    by (relation "measure (\<lambda>(f, s). length s)") (auto dest: shorter)
qed

section \<open>Exceptions\<close>

text \<open>
  \<open>ReTemplate\<close> stands for the exception with which the \<open>re\<close> module rejects a replacement
  template: \<open>re.error\<close>, or \<open>IndexError\<close> for a group name that names no group. The program
  catches neither of them.
\<close>

datatype exn =
    TimeoutExpired | ZeroDivisionError | IndexError | ValueError | OverflowError
  | ReTemplate | OSError

section \<open>The replacement template of \<open>re.sub\<close>\<close>

text \<open>
  A replacement text is a template. The \<open>re\<close> module (as of CPython 3.12) reads it from
  the left, one character at a time, a backslash together with the character after it.
  The pattern has no group, so the only group that a template can refer to is group 0,
  the whole match.
\<close>

datatype piece = Lit string | Whole

definition is_digit :: "char \<Rightarrow> bool" where
  "is_digit c = (let n = (of_char c :: nat) in 48 \<le> n \<and> n \<le> 57)"

definition is_octal :: "char \<Rightarrow> bool" where
  "is_octal c = (let n = (of_char c :: nat) in 48 \<le> n \<and> n \<le> 55)"

definition digit :: "char \<Rightarrow> nat" where
  "digit c = of_char c - 48"

definition is_ascii_letter :: "char \<Rightarrow> bool" where
  "is_ascii_letter c =
     (let n = (of_char c :: nat) in (65 \<le> n \<and> n \<le> 90) \<or> (97 \<le> n \<and> n \<le> 122))"

text \<open>The escapes \<open>\a \b \f \n \r \t \v \\\<close>.\<close>

definition simple_escape :: "char \<Rightarrow> char option" where
  "simple_escape c =
     (if c = CHR ''a'' then Some (CHR 0x07)
      else if c = CHR ''b'' then Some (CHR 0x08)
      else if c = CHR ''f'' then Some (CHR 0x0C)
      else if c = CHR ''n'' then Some LF
      else if c = CHR ''r'' then Some CR
      else if c = CHR ''t'' then Some (CHR 0x09)
      else if c = CHR ''v'' then Some (CHR 0x0B)
      else if c = backslash then Some backslash
      else None)"

text \<open>
  After \<open>\g\<close>: \<open><\<close>, a name, \<open>>\<close>. A name of decimal digits is a group number, and only
  the number 0 is a group of this pattern; any other name, an empty name, a missing
  bracket or a backslash inside the name is rejected.
\<close>

definition group_ref :: "string \<Rightarrow> exn + piece \<times> string" where
  "group_ref s =
     (case s of
        [] \<Rightarrow> Inl ReTemplate
      | b # r \<Rightarrow>
         if b = CHR ''<'' then
           (case dropWhile (\<lambda>x. x \<noteq> CHR ''>'' \<and> x \<noteq> backslash) r of
              [] \<Rightarrow> Inl ReTemplate
            | q # rest \<Rightarrow>
               (let name = takeWhile (\<lambda>x. x \<noteq> CHR ''>'' \<and> x \<noteq> backslash) r
                in if q = CHR ''>'' \<and> name \<noteq> [] \<and> list_all (\<lambda>x. x = CHR ''0'') name
                   then Inr (Whole, rest) else Inl ReTemplate))
         else Inl ReTemplate)"

text \<open>After \<open>\0\<close>: up to two more octal digits; the character with that code.\<close>

definition octal_zero :: "string \<Rightarrow> piece \<times> string" where
  "octal_zero s =
     (case s of
        [] \<Rightarrow> (Lit [CHR 0x00], s)
      | d1 # r1 \<Rightarrow>
         if is_octal d1 then
           (case r1 of
              [] \<Rightarrow> (Lit [char_of (digit d1)], r1)
            | d2 # r2 \<Rightarrow>
               if is_octal d2 then (Lit [char_of (8 * digit d1 + digit d2)], r2)
               else (Lit [char_of (digit d1)], r1))
         else (Lit [CHR 0x00], s))"

text \<open>
  After a backslash and a digit \<open>c\<close> from 1 to 9: three octal digits are the character with
  that code, up to 255; anything else is a reference to a group from 1 on, which this
  pattern does not have.
\<close>

definition octal_three :: "char \<Rightarrow> string \<Rightarrow> exn + piece \<times> string" where
  "octal_three c s =
     (case s of
        d2 # d3 # rest \<Rightarrow>
          if is_octal c \<and> is_octal d2 \<and> is_octal d3 then
            (if 255 < 64 * digit c + 8 * digit d2 + digit d3 then Inl ReTemplate
             else Inr (Lit [char_of (64 * digit c + 8 * digit d2 + digit d3)], rest))
          else Inl ReTemplate
      | _ \<Rightarrow> Inl ReTemplate)"

text \<open>
  What follows a backslash: the piece it stands for and the rest of the template. An
  unknown escape of an ASCII letter is rejected, any other unknown escape stands for
  itself, backslash included; a backslash at the end is rejected.
\<close>

definition escape :: "string \<Rightarrow> exn + piece \<times> string" where
  "escape s =
     (case s of
        [] \<Rightarrow> Inl ReTemplate
      | c # r \<Rightarrow>
         if c = CHR ''g'' then group_ref r
         else if c = CHR ''0'' then Inr (octal_zero r)
         else if is_digit c then octal_three c r
         else
           (case simple_escape c of
              Some x \<Rightarrow> Inr (Lit [x], r)
            | None \<Rightarrow>
               if is_ascii_letter c then Inl ReTemplate else Inr (Lit [backslash, c], r)))"

function parse_template :: "string \<Rightarrow> exn + piece list" where
  "parse_template [] = Inr []"
| "parse_template (c # cs) =
     (if c = backslash then
        (case escape cs of
           Inl e \<Rightarrow> Inl e
         | Inr (pc, rest) \<Rightarrow>
            (case parse_template rest of
               Inl e \<Rightarrow> Inl e
             | Inr ps \<Rightarrow> Inr (pc # ps)))
      else
        (case parse_template cs of
           Inl e \<Rightarrow> Inl e
         | Inr ps \<Rightarrow> Inr (Lit [c] # ps)))"
  by pat_completeness auto
termination
proof -
  have g: "length rest \<le> length s" if "group_ref s = Inr (pc, rest)" for s pc rest
  proof -
    from that obtain b r q where s: "s = b # r"
      and d: "dropWhile (\<lambda>x. x \<noteq> CHR ''>'' \<and> x \<noteq> backslash) r = q # rest"
      by (auto simp: group_ref_def Let_def split: list.splits if_splits)
    have "length (q # rest) \<le> length r"
      unfolding d [symmetric] by (rule length_dropWhile_le)
    with s show ?thesis by simp
  qed
  have z: "length (snd (octal_zero s)) \<le> length s" for s
    by (simp add: octal_zero_def split: list.splits)
  have t: "length rest \<le> length s" if "octal_three c s = Inr (pc, rest)" for c s pc rest
    using that by (auto simp: octal_three_def split: list.splits if_splits)
  have e: "length rest \<le> length s" if "escape s = Inr (pc, rest)" for s pc rest
  proof (cases s)
    case Nil
    with that show ?thesis by (simp add: escape_def)
  next
    case (Cons c r)
    have "length rest \<le> length r"
      using that Cons g [of r pc rest] z [of r] t [of c r pc rest]
      by (auto simp: escape_def split: if_splits option.splits)
    with Cons show ?thesis by simp
  qed
  show ?thesis
    by (relation "measure length") (auto dest: e)
qed

text \<open>The text that the pieces of a template give for a match.\<close>

definition expand :: "piece list \<Rightarrow> string \<Rightarrow> string" where
  "expand ps matched = concat (map (\<lambda>p. case p of Lit s \<Rightarrow> s | Whole \<Rightarrow> matched) ps)"

text \<open>
  \<open>re.sub(pattern, repl, content)\<close>: the template is read first, so a rejected template
  raises whether or not the content has a match.
\<close>

definition re_sub :: "string \<Rightarrow> string \<Rightarrow> exn + string" where
  "re_sub repl content =
     (case parse_template repl of
        Inl e \<Rightarrow> Inl e
      | Inr ps \<Rightarrow> Inr (sub_all (expand ps) content))"

section \<open>Events and the world\<close>

datatype arg = I int | S string | L "string list" | B bool | Opaque

datatype log_method = Debug | Info | Warning | Error | Exception

text \<open>
  What the program does to its surroundings, in order: a logger call (method, message
  template, arguments), a child process (command line, time limit), a sleep, a file
  written (name, new content).
\<close>

datatype event =
    Log log_method string "arg list"
  | Run "string list" int
  | Sleep int
  | WriteText string string

datatype proc_result = Exited int string string | Raised exn

text \<open>
  The world of one run: the configuration directory (whether it exists, and its two
  files, absent or with their text), whether the logger is enabled for DEBUG, the outcome
  of the \<open>n\<close>-th child process for every \<open>n\<close> (exit code, standard output and standard
  error, or the exception that \<open>subprocess.run\<close> raises), the number of child processes
  started so far, and the events so far. The text of a file is its decoded content as it
  lies on disk. Opening, decoding and writing the two files succeeds, the child processes
  leave them alone, and no signal interrupts the program. Two constants of the platform
  belong to the world as well: the line separator \<open>os.linesep\<close> and the longest delay that
  \<open>time.sleep\<close> accepts.
\<close>

record world =
  dir_exists :: bool
  tfvars :: "string option"
  main_tf :: "string option"
  debug_enabled :: bool
  procs :: "nat \<Rightarrow> proc_result"
  spawned :: nat
  trace :: "event list"
  linesep :: string
  sleep_max :: int

definition emit :: "event \<Rightarrow> world \<Rightarrow> world" where
  "emit e w = w\<lparr>trace := trace w @ [e]\<rparr>"

definition log :: "log_method \<Rightarrow> string \<Rightarrow> arg list \<Rightarrow> world \<Rightarrow> world" where
  "log m msg args w = emit (Log m msg args) w"

record completed =
  returncode :: int
  stdout :: string
  stderr :: string

text \<open>\<open>subprocess.run(cmd, check=False, capture_output=True, text=True, timeout=t)\<close>.\<close>

definition subprocess_run :: "string list \<Rightarrow> int \<Rightarrow> world \<Rightarrow> (exn + completed) \<times> world" where
  "subprocess_run cmd t w =
     (let w' = (emit (Run cmd t) w)\<lparr>spawned := spawned w + 1\<rparr>
      in case procs w (spawned w) of
           Exited rc out err \<Rightarrow> (Inr \<lparr>returncode = rc, stdout = out, stderr = err\<rparr>, w')
         | Raised e \<Rightarrow> (Inl e, w'))"

text \<open>
  \<open>time.sleep(d)\<close> for an integer \<open>d\<close>: a negative length raises \<open>ValueError\<close>, a length
  beyond what the platform's clock takes raises \<open>OverflowError\<close>.
\<close>

definition sleep :: "int \<Rightarrow> world \<Rightarrow> (exn + unit) \<times> world" where
  "sleep d w =
     (if d < 0 then (Inl ValueError, w)
      else if sleep_max w < d then (Inl OverflowError, w)
      else (Inr (), emit (Sleep d) w))"

text \<open>
  \<open>Path.read_text()\<close> opens the file with universal newlines: \<open>\r\n\<close> and a lone \<open>\r\<close>
  are read as \<open>\n\<close>. \<open>Path.write_text(data)\<close> writes each \<open>\n\<close> as the line separator of
  the platform.
\<close>

fun read_text :: "string \<Rightarrow> string" where
  "read_text [] = []"
| "read_text [c] = [if c = CR then LF else c]"
| "read_text (c # d # ds) =
     (if c = CR \<and> d = LF then LF # read_text ds
      else if c = CR then LF # read_text (d # ds)
      else c # read_text (d # ds))"

definition write_text :: "world \<Rightarrow> string \<Rightarrow> string" where
  "write_text w data = concat (map (\<lambda>c. if c = LF then linesep w else [c]) data)"

section \<open>\<open>update_main_tf\<close>\<close>

text \<open>The replacement \<open>f'availability_domain = "{availability_domain}"'\<close>.\<close>

definition assignment :: "string \<Rightarrow> string" where
  "assignment availability_domain = ''availability_domain = '' @ [dq] @ availability_domain @ [dq]"

definition update_legacy :: "string \<Rightarrow> world \<Rightarrow> (exn + unit) \<times> world" where
  "update_legacy availability_domain w =
     (case main_tf w of
        None \<Rightarrow> (Inr (), log Warning ''main.tf not found, skipping AD update'' [] w)
      | Some on_disk \<Rightarrow>
         (let content = read_text on_disk
          in case re_sub (assignment availability_domain) content of
               Inl e \<Rightarrow> (Inl e, w)
             | Inr updated_content \<Rightarrow>
                if updated_content \<noteq> content then
                  (Inr (),
                   log Info ''Updated main.tf with availability domain: %s'' [S availability_domain]
                     (emit (WriteText ''main.tf'' updated_content)
                        (w\<lparr>main_tf := Some (write_text w updated_content)\<rparr>)))
                else
                  (Inr (),
                   log Warning ''Could not find availability_domain line in main.tf to update'' [] w)))"

definition update_main_tf :: "string \<Rightarrow> world \<Rightarrow> (exn + unit) \<times> world" where
  "update_main_tf availability_domain w =
     (case tfvars w of
        None \<Rightarrow> update_legacy availability_domain w
      | Some on_disk \<Rightarrow>
         (let content = read_text on_disk
          in case re_sub (assignment availability_domain) content of
               Inl e \<Rightarrow> (Inl e, w)
             | Inr updated_content \<Rightarrow>
                if updated_content \<noteq> content then
                  (Inr (),
                   log Info ''Updated terraform.tfvars with availability domain: %s''
                     [S availability_domain]
                     (emit (WriteText ''terraform.tfvars'' updated_content)
                        (w\<lparr>tfvars := Some (write_text w updated_content)\<rparr>)))
                else
                  update_legacy availability_domain
                    (log Warning
                       ''Could not find availability_domain line in terraform.tfvars to update'' []
                       w)))"

section \<open>\<open>cleanup_resources\<close>\<close>

definition destroy_cmd :: "bool \<Rightarrow> string list" where
  "destroy_cmd auto_approve =
     [''terraform'', ''destroy''] @ (if auto_approve then [''-auto-approve''] else [])"

text \<open>The body of the \<open>try\<close> statement of \<open>cleanup_resources\<close>.\<close>

definition cleanup_try :: "bool \<Rightarrow> world \<Rightarrow> (exn + unit) \<times> world" where
  "cleanup_try auto_approve w =
     (case subprocess_run (destroy_cmd auto_approve) 1800 w of
        (Inl e, w1) \<Rightarrow> (Inl e, w1)
      | (Inr result, w1) \<Rightarrow>
         if returncode result = 0 then
           (Inr (),
            log Info ''Destroy output:\<newline>%s'' [S (stdout result)]
              (log Info ''Successfully cleaned up all resources'' [] w1))
         else
           (Inr (),
            log Error ''Destroy error output:\<newline>%s'' [S (stderr result)]
              (log Error ''Failed to clean up resources (exit code: %d)'' [I (returncode result)] w1)))"

text \<open>
  The \<open>try\<close> statement with its two handlers. Every value of \<^typ>\<open>exn\<close> is an instance of
  \<open>Exception\<close>, so the second handler takes whatever the first does not.
\<close>

definition cleanup_resources :: "bool \<Rightarrow> world \<Rightarrow> (exn + unit) \<times> world" where
  "cleanup_resources auto_approve w =
     (case cleanup_try auto_approve
             (log Info ''Running terraform destroy to clean up all resources...'' [] w) of
        (Inl TimeoutExpired, w1) \<Rightarrow> (Inr (), log Exception ''Terraform destroy timed out'' [] w1)
      | (Inl e, w1) \<Rightarrow> (Inr (), log Exception ''Unexpected error during resource cleanup:'' [] w1)
      | (Inr u, w1) \<Rightarrow> (Inr u, w1))"

section \<open>\<open>run_terraform_apply\<close>\<close>

record params =
  max_attempts :: int
  retry_delay :: int
  auto_approve :: bool
  availability_domains :: "string list"
  timeout :: int
  no_cleanup :: bool
  plan_only :: bool

text \<open>\<open>a % b\<close> on integers: a zero divisor raises; otherwise the floored remainder.\<close>

definition py_mod :: "int \<Rightarrow> int \<Rightarrow> exn + int" where
  "py_mod a b = (if b = 0 then Inl ZeroDivisionError else Inr (a mod b))"

text \<open>\<open>xs[i]\<close>: a negative index counts from the end; out of range raises.\<close>

definition py_index :: "'a list \<Rightarrow> int \<Rightarrow> exn + 'a" where
  "py_index xs i =
     (if 0 \<le> i \<and> i < int (length xs) then Inr (xs ! nat i)
      else if - int (length xs) \<le> i \<and> i < 0 then Inr (xs ! nat (int (length xs) + i))
      else Inl IndexError)"

text \<open>\<open>region_index = (attempt - 1) % len(availability_domains)\<close>.\<close>

definition region_index :: "string list \<Rightarrow> int \<Rightarrow> exn + int" where
  "region_index ads attempt = py_mod (attempt - 1) (int (length ads))"

text \<open>\<open>current_ad = availability_domains[region_index]\<close>.\<close>

definition current_ad :: "string list \<Rightarrow> int \<Rightarrow> exn + string" where
  "current_ad ads attempt =
     (case region_index ads attempt of
        Inl e \<Rightarrow> Inl e
      | Inr i \<Rightarrow> py_index ads i)"

definition operation :: "params \<Rightarrow> string" where
  "operation p = (if plan_only p then ''plan'' else ''apply'')"

definition cmd :: "params \<Rightarrow> string list" where
  "cmd p =
     [''terraform'', if plan_only p then ''plan'' else ''apply'']
       @ (if auto_approve p \<and> \<not> plan_only p then [''-auto-approve''] else [])"

text \<open>
  How a piece of the loop body ends: \<open>return b\<close>, or \<open>attempt += 1; continue\<close> (the
  two \<open>continue\<close> statements of the loop both follow that increment), or it ends normally.
\<close>

datatype control = Return bool | Continue | Normal

definition debug_log :: "string \<Rightarrow> arg list \<Rightarrow> world \<Rightarrow> world" where
  "debug_log msg args w = (if debug_enabled w then log Debug msg args w else w)"

definition recoverable :: "string \<Rightarrow> bool" where
  "recoverable error_output =
     (py_in ''out of host capacity'' error_output \<or> py_in ''internalerror'' error_output)"

text \<open>The body of the \<open>try\<close> statement in the loop.\<close>

definition try_body :: "params \<Rightarrow> int \<Rightarrow> world \<Rightarrow> (exn + control) \<times> world" where
  "try_body p attempt w =
     (case subprocess_run (cmd p) (timeout p) w of
        (Inl e, w1) \<Rightarrow> (Inl e, w1)
      | (Inr result, w1) \<Rightarrow>
         if returncode result = 0 then
           (Inr (Return True),
            debug_log ''Output:\<newline>%s'' [S (stdout result)]
              (log Info ''Terraform %s succeeded!'' [S (operation p)] w1))
         else
           (let w2 = debug_log ''Error output:\<newline>%s'' [S (stderr result)]
                       (log Warning ''Terraform %s failed (exit code: %d)''
                          [S (operation p), I (returncode result)] w1)
            in if plan_only p then (Inr (Return False), w2)
               else
                 (case (if \<not> no_cleanup p then cleanup_resources (auto_approve p) w2
                        else (Inr (), w2)) of
                    (Inl e, w3) \<Rightarrow> (Inl e, w3)
                  | (Inr u, w3) \<Rightarrow>
                     if recoverable (lower (stderr result)) then
                       if attempt < max_attempts p then
                         (case sleep (retry_delay p)
                                 (log Info
                                    ''Detected recoverable error (host capacity). Retrying in %d seconds...''
                                    [I (retry_delay p)] w3) of
                            (Inl e, w4) \<Rightarrow> (Inl e, w4)
                          | (Inr u, w4) \<Rightarrow> (Inr Continue, w4))
                       else
                         (Inr (Return False),
                          log Error ''Detected recoverable error but no more attempts available.'' [] w3)
                     else
                       (Inr Normal,
                        log Error ''Non-recoverable error detected. Stopping retries.'' [] w3))))"

text \<open>
  The \<open>try\<close> statement with its handlers and its \<open>else\<close> clause: one run of the external
  tool and what the driver decides from it.
\<close>

definition try_stmt :: "params \<Rightarrow> int \<Rightarrow> world \<Rightarrow> (exn + control) \<times> world" where
  "try_stmt p attempt w =
     (case try_body p attempt w of
        (Inl TimeoutExpired, w1) \<Rightarrow>
          (Inr Continue, log Warning ''Terraform apply timed out. Retrying...'' [] w1)
      | (Inl e, w1) \<Rightarrow>
          (let w2 = log Exception ''Unexpected error running terraform %s:'' [S (operation p)] w1
           in if \<not> plan_only p \<and> \<not> no_cleanup p then
                (case cleanup_resources (auto_approve p)
                        (log Info ''Cleaning up resources due to unexpected error...'' [] w2) of
                   (Inl e', w3) \<Rightarrow> (Inl e', w3)
                 | (Inr u, w3) \<Rightarrow> (Inr (Return False), w3))
              else (Inr (Return False), w2))
      | (Inr Normal, w1) \<Rightarrow> (Inr (Return False), w1)
      | (Inr c, w1) \<Rightarrow> (Inr c, w1))"

text \<open>One pass of the loop body once the zone of the attempt is known.\<close>

definition attempt_with :: "params \<Rightarrow> int \<Rightarrow> string \<Rightarrow> world \<Rightarrow> (exn + control) \<times> world" where
  "attempt_with p attempt ad w =
     (case update_main_tf ad
             (log Info ''Attempt %d/%d: Using AD %s'' [I attempt, I (max_attempts p), S ad] w) of
        (Inl e, w1) \<Rightarrow> (Inl e, w1)
      | (Inr u, w1) \<Rightarrow> try_stmt p attempt (log Info ''Running %s'' [L (cmd p)] w1))"

definition loop_body :: "params \<Rightarrow> int \<Rightarrow> world \<Rightarrow> (exn + control) \<times> world" where
  "loop_body p attempt w =
     (case current_ad (availability_domains p) attempt of
        Inl e \<Rightarrow> (Inl e, w)
      | Inr ad \<Rightarrow> attempt_with p attempt ad w)"

text \<open>What follows the loop.\<close>

definition after_loop :: "params \<Rightarrow> world \<Rightarrow> (exn + bool) \<times> world" where
  "after_loop p w =
     (let w1 = log Error ''Maximum attempts (%d) exceeded.'' [I (max_attempts p)] w
      in if \<not> plan_only p \<and> \<not> no_cleanup p then
           (case cleanup_resources (auto_approve p) (log Info ''Cleaning up resources...'' [] w1) of
              (Inl e, w2) \<Rightarrow> (Inl e, w2)
            | (Inr u, w2) \<Rightarrow> (Inr False, w2))
         else (Inr False, w1))"

text \<open>
  \<open>while attempt <= max_attempts\<close>, from the given attempt number on.
\<close>

function while_loop :: "params \<Rightarrow> int \<Rightarrow> world \<Rightarrow> (exn + bool) \<times> world" where
  "while_loop p attempt w =
     (if attempt \<le> max_attempts p then
        (case loop_body p attempt w of
           (Inl e, w1) \<Rightarrow> (Inl e, w1)
         | (Inr (Return b), w1) \<Rightarrow> (Inr b, w1)
         | (Inr Continue, w1) \<Rightarrow> while_loop p (attempt + 1) w1
         | (Inr Normal, w1) \<Rightarrow> (Inr False, w1))
      else after_loop p w)"
  by pat_completeness auto
termination
  by (relation "measure (\<lambda>(p, attempt, w). nat (max_attempts p + 1 - attempt))") auto

declare while_loop.simps [simp del]

definition run_terraform_apply :: "params \<Rightarrow> world \<Rightarrow> (exn + bool) \<times> world" where
  "run_terraform_apply p w =
     (if \<not> dir_exists w then
        (Inr False, log Error ''Terraform config directory does not exist: %s'' [Opaque] w)
      else while_loop p 1 w)"

section \<open>\<open>main\<close>\<close>

text \<open>
  The parsed command line. \<open>availability_domains_arg\<close> is \<open>None\<close> when the option is
  absent; the parser (\<open>nargs='+'\<close>) accepts the option with at least one value only.
\<close>

record args =
  max_attempts_arg :: int
  retry_delay_arg :: int
  no_auto_approve :: bool
  availability_domains_arg :: "string list option"
  timeout_arg :: int
  no_cleanup_arg :: bool
  quiet :: bool
  verbose :: bool
  plan_only_arg :: bool

definition check_availability_domain_in_tfvars :: "world \<Rightarrow> bool" where
  "check_availability_domain_in_tfvars w =
     (case tfvars w of
        None \<Rightarrow> False
      | Some on_disk \<Rightarrow>
         (case re_search (read_text on_disk) of
            None \<Rightarrow> False
          | Some v \<Rightarrow> strip v \<noteq> []))"

text \<open>
  \<open>setup_logging\<close> with the level chosen from the two flags: the logger is enabled for
  DEBUG exactly when the level is DEBUG. Its log directory lies outside the
  configuration directory and is not part of the world.
\<close>

definition setup_logging :: "args \<Rightarrow> world \<Rightarrow> world" where
  "setup_logging a w = w\<lparr>debug_enabled := (\<not> quiet a \<and> verbose a)\<rparr>"

definition banner :: "args \<Rightarrow> world \<Rightarrow> world" where
  "banner a w =
     log Info ''Availability domains: %s''
       [case availability_domains_arg a of None \<Rightarrow> Opaque | Some ads \<Rightarrow> L ads]
     (log Info ''Auto approve: %s'' [B (\<not> no_auto_approve a)]
     (log Info ''Retry delay: %d seconds'' [I (retry_delay_arg a)]
     (log Info ''Max attempts: %d'' [I (max_attempts_arg a)]
     (log Info ''Config directory: %s'' [Opaque]
     (log Info ''Log file: %s'' [Opaque]
     (log Info ''Starting terraform apply retry script with automatic cleanup'' [] w))))))"

definition driver_params :: "args \<Rightarrow> string list \<Rightarrow> params" where
  "driver_params a ads =
     \<lparr>max_attempts = max_attempts_arg a, retry_delay = retry_delay_arg a,
      auto_approve = (\<not> no_auto_approve a), availability_domains = ads,
      timeout = timeout_arg a, no_cleanup = no_cleanup_arg a, plan_only = plan_only_arg a\<rparr>"

text \<open>
  \<open>main\<close> up to the call of the driver: either the process exits with a status, or the
  driver is called with the given zone list. \<open>parser.error\<close> prints the usage message and
  exits with status 2; reading a missing file raises.
\<close>

datatype start = Exit int | Drive "string list"

definition startup :: "args \<Rightarrow> world \<Rightarrow> (exn + start) \<times> world" where
  "startup a w =
     (if quiet a \<and> verbose a then (Inr (Exit 2), w)
      else
        (let w1 = banner a (setup_logging a w);
             ad_in_tfvars = check_availability_domain_in_tfvars w1
         in case availability_domains_arg a of
              None \<Rightarrow>
               if \<not> ad_in_tfvars then
                 (Inr (Exit 1),
                  log Error
                    ''Please either provide --availability-domains or set availability_domain in terraform.tfvars'' []
                    (log Error
                       ''No --availability-domains provided and availability_domain not set in terraform.tfvars'' []
                       w1))
               else
                 (let w2 = log Info
                       ''No --availability-domains provided, using existing availability_domain from terraform.tfvars''
                       [] w1
                  in case tfvars w2 of
                       None \<Rightarrow> (Inl OSError, w2)
                     | Some on_disk \<Rightarrow>
                        (case re_search (read_text on_disk) of
                           Some ad \<Rightarrow>
                             (Inr (Drive [ad]),
                              log Info ''Using availability domain from terraform.tfvars: %s'' [S ad] w2)
                         | None \<Rightarrow>
                             (Inr (Exit 1),
                              log Error ''Could not read availability_domain from terraform.tfvars'' [] w2)))
            | Some ads \<Rightarrow>
               (Inr (Drive ads),
                if ad_in_tfvars then
                  log Info
                    ''availability_domain is set in terraform.tfvars, but will be overridden by --availability-domains''
                    [] w1
                else w1)))"

text \<open>The end of \<open>main\<close>: the exit status from what the driver returned.\<close>

definition finish :: "(exn + bool) \<times> world \<Rightarrow> (exn + int) \<times> world" where
  "finish r =
     (case r of
        (Inl e, w) \<Rightarrow> (Inl e, w)
      | (Inr success, w) \<Rightarrow>
         if success then (Inr 0, log Info ''Script completed successfully!'' [] w)
         else (Inr 1, log Error ''Script failed! All resources have been cleaned up.'' [] w))"

definition main :: "args \<Rightarrow> world \<Rightarrow> (exn + int) \<times> world" where
  "main a w =
     (case startup a w of
        (Inl e, w1) \<Rightarrow> (Inl e, w1)
      | (Inr (Exit n), w1) \<Rightarrow> (Inr n, w1)
      | (Inr (Drive ads), w1) \<Rightarrow> finish (run_terraform_apply (driver_params a ads) w1))"

text \<open>
  The exit status of the process: the argument of \<open>sys.exit\<close>, and 1 when an exception
  reaches the top level.
\<close>

definition exit_code :: "(exn + int) \<times> world \<Rightarrow> int" where
  "exit_code r = (case fst r of Inl e \<Rightarrow> 1 | Inr n \<Rightarrow> n)"

section \<open>Reading a trace\<close>

definition is_run :: "event \<Rightarrow> bool" where
  "is_run e = (case e of Run c t \<Rightarrow> True | _ \<Rightarrow> False)"

definition is_destroy :: "event \<Rightarrow> bool" where
  "is_destroy e =
     (case e of Run c t \<Rightarrow> c = destroy_cmd True \<or> c = destroy_cmd False | _ \<Rightarrow> False)"

definition is_sleep :: "event \<Rightarrow> bool" where
  "is_sleep e = (case e of Sleep d \<Rightarrow> True | _ \<Rightarrow> False)"

text \<open>The log call with which an attempt begins.\<close>

definition is_announcement :: "event \<Rightarrow> bool" where
  "is_announcement e =
     (case e of Log m s a \<Rightarrow> s = ''Attempt %d/%d: Using AD %s'' | _ \<Rightarrow> False)"

text \<open>\<open>extends P w w'\<close>: the trace of \<open>w'\<close> is the trace of \<open>w\<close> followed by events that satisfy \<open>P\<close>.\<close>

definition extends :: "(event \<Rightarrow> bool) \<Rightarrow> world \<Rightarrow> world \<Rightarrow> bool" where
  "extends P w w' = (\<exists>evs. trace w' = trace w @ evs \<and> list_all P evs)"

text \<open>
  The events the driver may add when called with \<open>p\<close>: the tool is run with the
  command line and the time limit of \<open>p\<close>; destroy is run with the limit 1800, and only
  when cleanup is on and the mode is not plan-only; a sleep lasts for the retry delay.
\<close>

definition allowed :: "params \<Rightarrow> event \<Rightarrow> bool" where
  "allowed p e =
     (case e of
        Run c t \<Rightarrow>
          (c = cmd p \<and> t = timeout p)
          \<or> (c = destroy_cmd (auto_approve p) \<and> t = 1800 \<and> \<not> no_cleanup p \<and> \<not> plan_only p)
      | Sleep d \<Rightarrow> d = retry_delay p \<and> 0 \<le> d \<and> \<not> plan_only p
      | _ \<Rightarrow> True)"

text \<open>Neither a child process nor a sleep.\<close>

definition inert :: "event \<Rightarrow> bool" where
  "inert e = (case e of Run c t \<Rightarrow> False | Sleep d \<Rightarrow> False | _ \<Rightarrow> True)"

text \<open>What \<open>cleanup_resources\<close> logs after the destroy run, by the outcome of that run.\<close>

definition cleanup_logs :: "proc_result \<Rightarrow> event list" where
  "cleanup_logs r =
     (case r of
        Exited rc out err \<Rightarrow>
          if rc = 0 then
            [Log Info ''Successfully cleaned up all resources'' [],
             Log Info ''Destroy output:\<newline>%s'' [S out]]
          else
            [Log Error ''Failed to clean up resources (exit code: %d)'' [I rc],
             Log Error ''Destroy error output:\<newline>%s'' [S err]]
      | Raised e \<Rightarrow>
          if e = TimeoutExpired then [Log Exception ''Terraform destroy timed out'' []]
          else [Log Exception ''Unexpected error during resource cleanup:'' []])"

text \<open>No match of the pattern begins at any of the first \<open>n\<close> positions of the text.\<close>

fun no_match_before :: "nat \<Rightarrow> string \<Rightarrow> bool" where
  "no_match_before 0 s = True"
| "no_match_before (Suc n) [] = True"
| "no_match_before (Suc n) (c # cs) = (match_here (c # cs) = None \<and> no_match_before n cs)"

text \<open>
  The world in which the \<open>try\<close> statement of an attempt starts: the attempt is announced,
  the zone is written, the command is announced.
\<close>

definition before_try :: "params \<Rightarrow> int \<Rightarrow> string \<Rightarrow> world \<Rightarrow> world" where
  "before_try p attempt ad w =
     log Info ''Running %s'' [L (cmd p)]
       (snd (update_main_tf ad
          (log Info ''Attempt %d/%d: Using AD %s'' [I attempt, I (max_attempts p), S ad] w)))"

text \<open>
  The world after an apply run that started in \<open>w\<close> and exited with the code \<open>rc\<close> and
  the error text \<open>err\<close> has been logged and, unless cleanup is off, cleaned up.
\<close>

definition after_failure :: "params \<Rightarrow> int \<Rightarrow> string \<Rightarrow> world \<Rightarrow> world" where
  "after_failure p rc err w =
     (let w2 = debug_log ''Error output:\<newline>%s'' [S err]
                 (log Warning ''Terraform %s failed (exit code: %d)'' [S (operation p), I rc]
                    ((emit (Run (cmd p) (timeout p)) w)\<lparr>spawned := spawned w + 1\<rparr>))
      in if no_cleanup p then w2 else snd (cleanup_resources (auto_approve p) w2))"

section \<open>Sample inputs\<close>

text \<open>
  A world built from the text of the two files and the outcomes of the first child
  processes (every later one exits with 0), on a platform whose line separator is the
  line feed and whose clock counts 64-bit nanoseconds; and a parameter record for three
  zones.
\<close>

definition sample_world :: "string option \<Rightarrow> string option \<Rightarrow> proc_result list \<Rightarrow> world" where
  "sample_world tf mt outcomes =
     \<lparr>dir_exists = True, tfvars = tf, main_tf = mt, debug_enabled = False,
      procs = (\<lambda>n. if n < length outcomes then outcomes ! n else Exited 0 [] []),
      spawned = 0, trace = [], linesep = [LF], sleep_max = 9223372036\<rparr>"

definition sample_params :: params where
  "sample_params =
     \<lparr>max_attempts = 5, retry_delay = 30, auto_approve = True,
      availability_domains = [''AD-1'', ''AD-2'', ''AD-3''],
      timeout = 600, no_cleanup = False, plan_only = False\<rparr>"

text \<open>The command line with two zones and every other option at its default.\<close>

definition sample_args :: args where
  "sample_args =
     \<lparr>max_attempts_arg = 50, retry_delay_arg = 30, no_auto_approve = False,
      availability_domains_arg = Some [''AD-1'', ''AD-2''], timeout_arg = 1800,
      no_cleanup_arg = False, quiet = False, verbose = False, plan_only_arg = False\<rparr>"

section \<open>The events of a run\<close>

text \<open>
  Every function of the driver only adds events to the trace, and the events it adds
  satisfy \<open>allowed\<close>. This is shown function by function and, for the loop, by induction
  on its computation.
\<close>

lemma cleanup_resources_result:
  "cleanup_resources aa w =
     (Inr (),
      w\<lparr>spawned := spawned w + 1,
        trace := trace w
          @ [Log Info ''Running terraform destroy to clean up all resources...'' [],
             Run (destroy_cmd aa) 1800]
          @ cleanup_logs (procs w (spawned w))\<rparr>)"
proof (cases "procs w (spawned w)")
  case (Exited rc out err)
  then show ?thesis
    by (simp add: cleanup_resources_def cleanup_try_def subprocess_run_def log_def emit_def
        cleanup_logs_def)
next
  case (Raised e)
  then show ?thesis
    by (cases e)
      (simp_all add: cleanup_resources_def cleanup_try_def subprocess_run_def log_def emit_def
        cleanup_logs_def)
qed

lemma allowed_simps [simp]:
  "allowed p (Log m s a)"
  "allowed p (WriteText f c)"
  "allowed p (Run (cmd p) (timeout p))"
  "\<not> no_cleanup p \<Longrightarrow> \<not> plan_only p \<Longrightarrow> allowed p (Run (destroy_cmd (auto_approve p)) 1800)"
  "0 \<le> retry_delay p \<Longrightarrow> \<not> plan_only p \<Longrightarrow> allowed p (Sleep (retry_delay p))"
  by (simp_all add: allowed_def)

lemma extends_refl [simp]: "extends P w w"
  by (simp add: extends_def)

lemma extends_trans: "extends P w w1 \<Longrightarrow> extends P w1 w2 \<Longrightarrow> extends P w w2"
  by (auto simp: extends_def)

lemma extends_emit_after: "extends P w w1 \<Longrightarrow> P e \<Longrightarrow> extends P w (emit e w1)"
  by (auto simp: extends_def emit_def)

lemma extends_log_after: "extends P w w1 \<Longrightarrow> P (Log m s a) \<Longrightarrow> extends P w (log m s a w1)"
  by (simp add: log_def extends_emit_after)

lemma extends_debug_log_after:
  "extends P w w1 \<Longrightarrow> P (Log Debug s a) \<Longrightarrow> extends P w (debug_log s a w1)"
  by (simp add: debug_log_def extends_log_after)

lemma cleanup_logs_allowed: "list_all (allowed p) (cleanup_logs r)"
  by (cases r) (simp_all add: cleanup_logs_def)

lemma extends_cleanup_after:
  assumes "extends (allowed p) w w1" "\<not> no_cleanup p" "\<not> plan_only p"
  shows "extends (allowed p) w (snd (cleanup_resources (auto_approve p) w1))"
  using assms by (auto simp: extends_def cleanup_resources_result cleanup_logs_allowed)

lemma update_legacy_extends:
  "extends (allowed p) w w1 \<Longrightarrow> extends (allowed p) w (snd (update_legacy ad w1))"
  by (auto simp: update_legacy_def Let_def extends_def log_def emit_def
      split: option.splits sum.splits)

lemma update_main_tf_extends:
  "extends (allowed p) w w1 \<Longrightarrow> extends (allowed p) w (snd (update_main_tf ad w1))"
  by (auto simp: update_main_tf_def Let_def split: option.splits sum.splits
      intro!: update_legacy_extends extends_log_after)
    (auto simp: extends_def log_def emit_def)

lemma snd_subprocess_run:
  "snd (subprocess_run c t w) = (emit (Run c t) w)\<lparr>spawned := spawned w + 1\<rparr>"
  by (simp add: subprocess_run_def Let_def split: proc_result.splits)

lemma subprocess_run_extends:
  "extends (allowed p) w w1 \<Longrightarrow> extends (allowed p) w (snd (subprocess_run (cmd p) (timeout p) w1))"
  by (auto simp: snd_subprocess_run extends_def emit_def)

lemma sleep_extends:
  "extends (allowed p) w w1 \<Longrightarrow> \<not> plan_only p
    \<Longrightarrow> extends (allowed p) w (snd (sleep (retry_delay p) w1))"
  by (auto simp: sleep_def extends_def emit_def)

lemma try_body_extends:
  assumes "extends (allowed p) w w1"
  shows "extends (allowed p) w (snd (try_body p attempt w1))"
proof -
  obtain r w2 where run: "subprocess_run (cmd p) (timeout p) w1 = (r, w2)"
    by (cases "subprocess_run (cmd p) (timeout p) w1")
  with assms have e2: "extends (allowed p) w w2"
    using subprocess_run_extends [of p w w1] by simp
  show ?thesis
  proof (cases r)
    case (Inl e)
    with run e2 show ?thesis by (simp add: try_body_def)
  next
    case (Inr result)
    let ?w3 = "debug_log ''Error output:\<newline>%s'' [S (stderr result)]
                 (log Warning ''Terraform %s failed (exit code: %d)''
                    [S (operation p), I (returncode result)] w2)"
    have e3: "extends (allowed p) w ?w3"
      by (intro extends_debug_log_after extends_log_after e2) simp_all
    let ?c = "if \<not> no_cleanup p then cleanup_resources (auto_approve p) ?w3 else (Inr (), ?w3)"
    show ?thesis
    proof (cases "returncode result = 0")
      case True
      with run Inr show ?thesis
        by (simp add: try_body_def extends_debug_log_after extends_log_after e2)
    next
      case nz: False
      show ?thesis
      proof (cases "plan_only p")
        case True
        with run Inr nz e3 show ?thesis by (simp add: try_body_def)
      next
        case False
        have fc: "fst ?c = Inr ()" by (simp add: cleanup_resources_result)
        have e4: "extends (allowed p) w (snd ?c)"
          using e3 False by (simp add: extends_cleanup_after)
        obtain w4 where c: "?c = (Inr (), w4)"
          using fc by (cases ?c) auto
        with e4 have e4': "extends (allowed p) w w4" by simp
        from run Inr nz False c show ?thesis
          unfolding try_body_def
          by (auto simp: Let_def split: prod.splits sum.splits
              intro!: extends_log_after e4'
              dest: sym)
            (metis e4' extends_log_after allowed_simps(1) sleep_extends snd_conv)+
      qed
    qed
  qed
qed

lemma try_stmt_extends:
  assumes "extends (allowed p) w w1"
  shows "extends (allowed p) w (snd (try_stmt p attempt w1))"
proof -
  obtain r w2 where b: "try_body p attempt w1 = (r, w2)"
    by (cases "try_body p attempt w1")
  with assms have e2: "extends (allowed p) w w2"
    using try_body_extends [of p w w1 attempt] by simp
  show ?thesis
  proof (cases r)
    case (Inr c)
    with b e2 show ?thesis
      by (cases c) (simp_all add: try_stmt_def)
  next
    case (Inl e)
    let ?w3 = "log Exception ''Unexpected error running terraform %s:'' [S (operation p)] w2"
    have e3: "extends (allowed p) w ?w3"
      by (intro extends_log_after e2) simp
    have e4: "extends (allowed p) w
        (snd (cleanup_resources (auto_approve p)
           (log Info ''Cleaning up resources due to unexpected error...'' [] ?w3)))"
      if "\<not> plan_only p" "\<not> no_cleanup p"
      using that by (intro extends_cleanup_after extends_log_after e3) simp_all
    from b Inl e2 e3 e4 show ?thesis
      by (cases e)
        (auto simp: try_stmt_def Let_def extends_log_after cleanup_resources_result
          simp del: One_nat_def)
  qed
qed

lemma attempt_with_extends:
  assumes "extends (allowed p) w w1"
  shows "extends (allowed p) w (snd (attempt_with p attempt ad w1))"
proof -
  let ?w2 = "log Info ''Attempt %d/%d: Using AD %s'' [I attempt, I (max_attempts p), S ad] w1"
  have e2: "extends (allowed p) w ?w2"
    by (intro extends_log_after assms) simp
  obtain r w3 where u: "update_main_tf ad ?w2 = (r, w3)"
    by (cases "update_main_tf ad ?w2")
  with e2 have e3: "extends (allowed p) w w3"
    using update_main_tf_extends [of p w ?w2 ad] by simp
  then have "extends (allowed p) w (snd (try_stmt p attempt (log Info ''Running %s'' [L (cmd p)] w3)))"
    by (intro try_stmt_extends extends_log_after) simp_all
  with u e3 show ?thesis
    by (cases r) (simp_all add: attempt_with_def)
qed

lemma loop_body_extends:
  "extends (allowed p) w w1 \<Longrightarrow> extends (allowed p) w (snd (loop_body p attempt w1))"
  by (simp add: loop_body_def attempt_with_extends split: sum.splits)

lemma after_loop_extends:
  assumes "extends (allowed p) w w1"
  shows "extends (allowed p) w (snd (after_loop p w1))"
proof -
  let ?w2 = "log Error ''Maximum attempts (%d) exceeded.'' [I (max_attempts p)] w1"
  have e2: "extends (allowed p) w ?w2"
    by (intro extends_log_after assms) simp
  have "extends (allowed p) w
      (snd (cleanup_resources (auto_approve p) (log Info ''Cleaning up resources...'' [] ?w2)))"
    if "\<not> plan_only p" "\<not> no_cleanup p"
    using that by (intro extends_cleanup_after extends_log_after e2) simp_all
  with e2 show ?thesis
    by (auto simp: after_loop_def Let_def cleanup_resources_result simp del: One_nat_def)
qed

lemma while_loop_extends:
  "extends (allowed p) w w1 \<Longrightarrow> extends (allowed p) w (snd (while_loop p attempt w1))"
proof (induction p attempt w1 rule: while_loop.induct)
  case (1 p attempt w1)
  show ?case
  proof (cases "attempt \<le> max_attempts p")
    case False
    with "1.prems" show ?thesis
      by (simp add: while_loop.simps [of p attempt w1] after_loop_extends)
  next
    case True
    obtain r w2 where b: "loop_body p attempt w1 = (r, w2)"
      by (cases "loop_body p attempt w1")
    with "1.prems" have e2: "extends (allowed p) w w2"
      using loop_body_extends [of p w w1 attempt] by simp
    show ?thesis
    proof (cases r)
      case (Inl e)
      with True b e2 show ?thesis
        by (simp add: while_loop.simps [of p attempt w1])
    next
      case (Inr c)
      show ?thesis
      proof (cases c)
        case Continue
        with True b Inr e2 "1.IH" show ?thesis
          by (simp add: while_loop.simps [of p attempt w1])
      qed (use True b Inr e2 in \<open>simp_all add: while_loop.simps [of p attempt w1]\<close>)
    qed
  qed
qed

lemma run_terraform_apply_extends:
  "extends (allowed p) w (snd (run_terraform_apply p w))"
  by (simp add: run_terraform_apply_def while_loop_extends extends_log_after)

text \<open>
  An attempt begins with its announcement, and whatever the loop does from an attempt on
  comes after what the body of that attempt did.
\<close>

lemma attempt_with_announces:
  "extends (allowed p)
     (log Info ''Attempt %d/%d: Using AD %s'' [I attempt, I (max_attempts p), S ad] w)
     (snd (attempt_with p attempt ad w))"
proof -
  let ?w0 = "log Info ''Attempt %d/%d: Using AD %s'' [I attempt, I (max_attempts p), S ad] w"
  obtain r w3 where u: "update_main_tf ad ?w0 = (r, w3)"
    by (cases "update_main_tf ad ?w0")
  then have e3: "extends (allowed p) ?w0 w3"
    using update_main_tf_extends [of p ?w0 ?w0 ad] by simp
  then have "extends (allowed p) ?w0
      (snd (try_stmt p attempt (log Info ''Running %s'' [L (cmd p)] w3)))"
    by (intro try_stmt_extends extends_log_after) simp_all
  with u e3 show ?thesis
    by (cases r) (simp_all add: attempt_with_def)
qed

lemma while_loop_after_body:
  assumes "attempt \<le> max_attempts p"
  shows "extends (allowed p) (snd (loop_body p attempt w)) (snd (while_loop p attempt w))"
proof -
  obtain r w1 where b: "loop_body p attempt w = (r, w1)"
    by (cases "loop_body p attempt w")
  show ?thesis
  proof (cases r)
    case (Inl e)
    with assms b show ?thesis by (simp add: while_loop.simps [of p attempt w])
  next
    case (Inr c)
    with assms b show ?thesis
      by (cases c) (simp_all add: while_loop.simps [of p attempt w] while_loop_extends)
  qed
qed

lemma while_loop_announces:
  assumes "attempt \<le> max_attempts p" "current_ad (availability_domains p) attempt = Inr ad"
  shows "\<exists>evs. trace (snd (while_loop p attempt w))
           = trace w
             @ Log Info ''Attempt %d/%d: Using AD %s'' [I attempt, I (max_attempts p), S ad] # evs"
proof -
  let ?w0 = "log Info ''Attempt %d/%d: Using AD %s'' [I attempt, I (max_attempts p), S ad] w"
  have "loop_body p attempt w = attempt_with p attempt ad w"
    using assms(2) by (simp add: loop_body_def)
  then have "extends (allowed p) ?w0 (snd (loop_body p attempt w))"
    using attempt_with_announces [of p attempt ad w] by simp
  then have "extends (allowed p) ?w0 (snd (while_loop p attempt w))"
    using while_loop_after_body [OF assms(1), of w] by (rule extends_trans)
  then obtain evs where "trace (snd (while_loop p attempt w)) = trace ?w0 @ evs"
    by (auto simp: extends_def)
  then show ?thesis by (simp add: log_def emit_def)
qed

section \<open>What an attempt leaves alone\<close>

lemma update_legacy_frame:
  "procs (snd (update_legacy ad w)) = procs w"
  "spawned (snd (update_legacy ad w)) = spawned w"
  "debug_enabled (snd (update_legacy ad w)) = debug_enabled w"
  "linesep (snd (update_legacy ad w)) = linesep w"
  "sleep_max (snd (update_legacy ad w)) = sleep_max w"
  "tfvars (snd (update_legacy ad w)) = tfvars w"
  by (simp_all add: update_legacy_def Let_def log_def emit_def split: option.splits sum.splits)

lemma update_main_tf_frame:
  "procs (snd (update_main_tf ad w)) = procs w"
  "spawned (snd (update_main_tf ad w)) = spawned w"
  "debug_enabled (snd (update_main_tf ad w)) = debug_enabled w"
  "linesep (snd (update_main_tf ad w)) = linesep w"
  "sleep_max (snd (update_main_tf ad w)) = sleep_max w"
  by (simp_all add: update_main_tf_def Let_def update_legacy_frame log_def emit_def
      split: option.splits sum.splits)

text \<open>What the editor does to the files does not depend on the trace.\<close>

lemma log_frame:
  "tfvars (log m s a w) = tfvars w"
  "main_tf (log m s a w) = main_tf w"
  "linesep (log m s a w) = linesep w"
  "sleep_max (log m s a w) = sleep_max w"
  "procs (log m s a w) = procs w"
  "spawned (log m s a w) = spawned w"
  "debug_enabled (log m s a w) = debug_enabled w"
  by (simp_all add: log_def emit_def)

lemma write_text_log: "write_text (log m s a w) data = write_text w data"
  by (simp add: write_text_def log_frame cong: if_cong)

lemma update_legacy_log:
  "fst (update_legacy ad (log m s a w)) = fst (update_legacy ad w)"
  "main_tf (snd (update_legacy ad (log m s a w))) = main_tf (snd (update_legacy ad w))"
proof -
  show "fst (update_legacy ad (log m s a w)) = fst (update_legacy ad w)"
    by (cases "main_tf w")
      (simp_all add: update_legacy_def Let_def log_frame split: sum.splits)
  show "main_tf (snd (update_legacy ad (log m s a w))) = main_tf (snd (update_legacy ad w))"
    by (cases "main_tf w")
      (simp_all add: update_legacy_def Let_def log_frame write_text_log split: sum.splits,
        simp_all add: log_def emit_def)
qed

lemma update_main_tf_log:
  "fst (update_main_tf ad (log m s a w)) = fst (update_main_tf ad w)"
  "tfvars (snd (update_main_tf ad (log m s a w))) = tfvars (snd (update_main_tf ad w))"
  "main_tf (snd (update_main_tf ad (log m s a w))) = main_tf (snd (update_main_tf ad w))"
proof -
  show "fst (update_main_tf ad (log m s a w)) = fst (update_main_tf ad w)"
    by (cases "tfvars w")
      (simp_all add: update_main_tf_def Let_def log_frame update_legacy_log split: sum.splits)
  show "tfvars (snd (update_main_tf ad (log m s a w))) = tfvars (snd (update_main_tf ad w))"
    by (cases "tfvars w")
      (simp_all add: update_main_tf_def Let_def log_frame write_text_log update_legacy_frame
        split: sum.splits, simp_all add: log_def emit_def)
  show "main_tf (snd (update_main_tf ad (log m s a w))) = main_tf (snd (update_main_tf ad w))"
    by (cases "tfvars w")
      (simp_all add: update_main_tf_def Let_def log_frame update_legacy_log split: sum.splits,
        simp_all add: log_def emit_def)
qed

text \<open>The \<open>try\<close> statement changes neither file.\<close>

lemma cleanup_resources_files:
  "tfvars (snd (cleanup_resources aa w)) = tfvars w"
  "main_tf (snd (cleanup_resources aa w)) = main_tf w"
  by (simp_all add: cleanup_resources_result)

lemma try_body_files:
  "tfvars (snd (try_body p attempt w)) = tfvars w"
  "main_tf (snd (try_body p attempt w)) = main_tf w"
  by (simp_all add: try_body_def subprocess_run_def Let_def cleanup_resources_result sleep_def
      log_def emit_def debug_log_def split: proc_result.splits)

lemma try_stmt_files:
  "tfvars (snd (try_stmt p attempt w)) = tfvars w"
  "main_tf (snd (try_stmt p attempt w)) = main_tf w"
proof -
  obtain r w1 where b: "try_body p attempt w = (r, w1)"
    by (cases "try_body p attempt w")
  then have f: "tfvars w1 = tfvars w" "main_tf w1 = main_tf w"
    using try_body_files [of p attempt w] by simp_all
  show "tfvars (snd (try_stmt p attempt w)) = tfvars w"
  proof (cases r)
    case (Inl e)
    with b f show ?thesis
      by (cases e) (simp_all add: try_stmt_def Let_def cleanup_resources_result log_def emit_def)
  next
    case (Inr c)
    with b f show ?thesis by (cases c) (simp_all add: try_stmt_def)
  qed
  show "main_tf (snd (try_stmt p attempt w)) = main_tf w"
  proof (cases r)
    case (Inl e)
    with b f show ?thesis
      by (cases e) (simp_all add: try_stmt_def Let_def cleanup_resources_result log_def emit_def)
  next
    case (Inr c)
    with b f show ?thesis by (cases c) (simp_all add: try_stmt_def)
  qed
qed

lemma attempt_with_files:
  "tfvars (snd (attempt_with p attempt ad w)) = tfvars (snd (update_main_tf ad w))"
  "main_tf (snd (attempt_with p attempt ad w)) = main_tf (snd (update_main_tf ad w))"
proof -
  let ?w0 = "log Info ''Attempt %d/%d: Using AD %s'' [I attempt, I (max_attempts p), S ad] w"
  obtain r w1 where b: "update_main_tf ad ?w0 = (r, w1)"
    by (cases "update_main_tf ad ?w0")
  with update_main_tf_log(2,3) [of ad Info _ _ w]
  have f: "tfvars w1 = tfvars (snd (update_main_tf ad w))"
    "main_tf w1 = main_tf (snd (update_main_tf ad w))"
    by (metis snd_conv)+
  show "tfvars (snd (attempt_with p attempt ad w)) = tfvars (snd (update_main_tf ad w))"
    using b f by (cases r) (simp_all add: attempt_with_def try_stmt_files log_frame)
  show "main_tf (snd (attempt_with p attempt ad w)) = main_tf (snd (update_main_tf ad w))"
    using b f by (cases r) (simp_all add: attempt_with_def try_stmt_files log_frame)
qed

section \<open>Zone selection\<close>

lemma region_index_nonempty:
  assumes "ads \<noteq> []"
  shows "region_index ads attempt = Inr ((attempt - 1) mod int (length ads))"
  using assms by (simp add: region_index_def py_mod_def)

lemma current_ad_nonempty:
  assumes "ads \<noteq> []"
  shows "current_ad ads attempt = Inr (ads ! nat ((attempt - 1) mod int (length ads)))"
proof -
  let ?n = "int (length ads)"
  let ?i = "(attempt - 1) mod ?n"
  from assms have pos: "0 < ?n" by simp
  then have "0 \<le> ?i" and "?i < ?n"
    by (simp_all only: pos_mod_sign pos_mod_bound)
  then have "py_index ads ?i = Inr (ads ! nat ?i)"
    by (simp add: py_index_def)
  with assms show ?thesis
    by (simp add: current_ad_def region_index_nonempty)
qed

text \<open>
  C2. For a non-empty zone list of length \<open>L\<close> and an attempt number \<open>N\<close> with
  \<open>1 \<le> N \<le> max_attempts\<close>, the zone of attempt \<open>N\<close> is the entry at index
  \<open>(N - 1) mod L\<close>, and the driver uses it: the loop body of attempt \<open>N\<close> runs with
  that zone, the first thing the loop does from attempt \<open>N\<close> on is to announce the attempt
  with that zone, and the two files after the attempt are what the editor makes of them
  when called with that zone. The driver itself begins with attempt 1 and the first zone.
  For three zones the attempts 1 to 7 use the indices 0, 1, 2, 0, 1, 2, 0.
\<close>

theorem zone_round_robin:
  "(availability_domains p \<noteq> [] \<and> 1 \<le> attempt \<and> attempt \<le> max_attempts p \<longrightarrow>
      current_ad (availability_domains p) attempt
        = Inr (availability_domains p ! (nat (attempt - 1) mod length (availability_domains p)))
      \<and> loop_body p attempt w
        = attempt_with p attempt
            (availability_domains p ! (nat (attempt - 1) mod length (availability_domains p))) w
      \<and> (\<exists>evs. trace (snd (while_loop p attempt w))
             = trace w
               @ Log Info ''Attempt %d/%d: Using AD %s''
                   [I attempt, I (max_attempts p),
                    S (availability_domains p
                         ! (nat (attempt - 1) mod length (availability_domains p)))]
                 # evs)
      \<and> tfvars (snd (loop_body p attempt w))
        = tfvars (snd (update_main_tf
            (availability_domains p ! (nat (attempt - 1) mod length (availability_domains p))) w))
      \<and> main_tf (snd (loop_body p attempt w))
        = main_tf (snd (update_main_tf
            (availability_domains p ! (nat (attempt - 1) mod length (availability_domains p))) w)))
   \<and> (availability_domains p \<noteq> [] \<and> 1 \<le> max_attempts p \<and> dir_exists w \<longrightarrow>
        (\<exists>evs. trace (snd (run_terraform_apply p w))
           = trace w
             @ Log Info ''Attempt %d/%d: Using AD %s''
                 [I 1, I (max_attempts p), S (availability_domains p ! 0)]
               # evs))
   \<and> (length ads = 3 \<longrightarrow>
        map (region_index ads) [1, 2, 3, 4, 5, 6, 7] = map Inr [0, 1, 2, 0, 1, 2, 0]
        \<and> map (current_ad ads) [1, 2, 3, 4, 5, 6, 7]
          = map Inr [ads ! 0, ads ! 1, ads ! 2, ads ! 0, ads ! 1, ads ! 2, ads ! 0])"
proof (intro conjI impI)
  assume a: "availability_domains p \<noteq> [] \<and> 1 \<le> attempt \<and> attempt \<le> max_attempts p"
  let ?ads = "availability_domains p"
  let ?z = "?ads ! (nat (attempt - 1) mod length ?ads)"
  have "nat ((attempt - 1) mod int (length ?ads)) = nat (attempt - 1) mod length ?ads"
    using a by (simp add: nat_mod_distrib)
  with a show c: "current_ad ?ads attempt = Inr ?z"
    by (simp add: current_ad_nonempty)
  show b: "loop_body p attempt w = attempt_with p attempt ?z w"
    by (simp add: loop_body_def c)
  from a c show "\<exists>evs. trace (snd (while_loop p attempt w))
      = trace w @ Log Info ''Attempt %d/%d: Using AD %s'' [I attempt, I (max_attempts p), S ?z] # evs"
    by (intro while_loop_announces) simp_all
  show "tfvars (snd (loop_body p attempt w)) = tfvars (snd (update_main_tf ?z w))"
    by (simp only: b attempt_with_files)
  show "main_tf (snd (loop_body p attempt w)) = main_tf (snd (update_main_tf ?z w))"
    by (simp only: b attempt_with_files)
next
  assume a: "availability_domains p \<noteq> [] \<and> 1 \<le> max_attempts p \<and> dir_exists w"
  let ?ads = "availability_domains p"
  have c: "current_ad ?ads 1 = Inr (?ads ! 0)"
    using a by (simp add: current_ad_nonempty)
  from a have "run_terraform_apply p w = while_loop p 1 w"
    by (simp add: run_terraform_apply_def)
  moreover from a c have "\<exists>evs. trace (snd (while_loop p 1 w))
      = trace w @ Log Info ''Attempt %d/%d: Using AD %s'' [I 1, I (max_attempts p), S (?ads ! 0)] # evs"
    by (intro while_loop_announces) simp_all
  ultimately show "\<exists>evs. trace (snd (run_terraform_apply p w))
      = trace w @ Log Info ''Attempt %d/%d: Using AD %s'' [I 1, I (max_attempts p), S (?ads ! 0)] # evs"
    by simp
next
  assume l: "length ads = 3"
  then show "map (region_index ads) [1, 2, 3, 4, 5, 6, 7] = map Inr [0, 1, 2, 0, 1, 2, 0]"
    by (simp add: region_index_def py_mod_def)
  from l have "ads \<noteq> []" by auto
  then show "map (current_ad ads) [1, 2, 3, 4, 5, 6, 7]
          = map Inr [ads ! 0, ads ! 1, ads ! 2, ads ! 0, ads ! 1, ads ! 2, ads ! 0]"
    using l by (simp add: current_ad_nonempty)
qed

text \<open>
  A run of seven attempts over three zones: six runs of the tool exceed the time limit,
  the seventh succeeds.
\<close>

theorem zone_round_robin_witness:
  "availability_domains sample_params \<noteq> [] \<and> (1::int) \<le> 5 \<and> 5 \<le> max_attempts sample_params
   \<and> length (availability_domains sample_params) = 3
   \<and> current_ad (availability_domains sample_params) 5 = Inr ''AD-2''
   \<and> map (current_ad (availability_domains sample_params)) [1, 2, 3, 4, 5, 6, 7]
       = map Inr [''AD-1'', ''AD-2'', ''AD-3'', ''AD-1'', ''AD-2'', ''AD-3'', ''AD-1'']
   \<and> filter is_announcement
        (trace (snd (run_terraform_apply (sample_params\<lparr>max_attempts := 7\<rparr>)
           (sample_world (Some (assignment ''AD-9'')) None
              [Raised TimeoutExpired, Raised TimeoutExpired, Raised TimeoutExpired,
               Raised TimeoutExpired, Raised TimeoutExpired, Raised TimeoutExpired]))))
       = [Log Info ''Attempt %d/%d: Using AD %s'' [I 1, I 7, S ''AD-1''],
          Log Info ''Attempt %d/%d: Using AD %s'' [I 2, I 7, S ''AD-2''],
          Log Info ''Attempt %d/%d: Using AD %s'' [I 3, I 7, S ''AD-3''],
          Log Info ''Attempt %d/%d: Using AD %s'' [I 4, I 7, S ''AD-1''],
          Log Info ''Attempt %d/%d: Using AD %s'' [I 5, I 7, S ''AD-2''],
          Log Info ''Attempt %d/%d: Using AD %s'' [I 6, I 7, S ''AD-3''],
          Log Info ''Attempt %d/%d: Using AD %s'' [I 7, I 7, S ''AD-1'']]
   \<and> tfvars (snd (run_terraform_apply (sample_params\<lparr>max_attempts := 7\<rparr>)
           (sample_world (Some (assignment ''AD-9'')) None
              [Raised TimeoutExpired, Raised TimeoutExpired, Raised TimeoutExpired,
               Raised TimeoutExpired, Raised TimeoutExpired, Raised TimeoutExpired])))
       = Some (assignment ''AD-1'')"
proof -
  have 1: "filter is_announcement
        (trace (snd (run_terraform_apply (sample_params\<lparr>max_attempts := 7\<rparr>)
           (sample_world (Some (assignment ''AD-9'')) None
              [Raised TimeoutExpired, Raised TimeoutExpired, Raised TimeoutExpired,
               Raised TimeoutExpired, Raised TimeoutExpired, Raised TimeoutExpired]))))
       = [Log Info ''Attempt %d/%d: Using AD %s'' [I 1, I 7, S ''AD-1''],
          Log Info ''Attempt %d/%d: Using AD %s'' [I 2, I 7, S ''AD-2''],
          Log Info ''Attempt %d/%d: Using AD %s'' [I 3, I 7, S ''AD-3''],
          Log Info ''Attempt %d/%d: Using AD %s'' [I 4, I 7, S ''AD-1''],
          Log Info ''Attempt %d/%d: Using AD %s'' [I 5, I 7, S ''AD-2''],
          Log Info ''Attempt %d/%d: Using AD %s'' [I 6, I 7, S ''AD-3''],
          Log Info ''Attempt %d/%d: Using AD %s'' [I 7, I 7, S ''AD-1'']]"
    by code_simp
  have 2: "tfvars (snd (run_terraform_apply (sample_params\<lparr>max_attempts := 7\<rparr>)
           (sample_world (Some (assignment ''AD-9'')) None
              [Raised TimeoutExpired, Raised TimeoutExpired, Raised TimeoutExpired,
               Raised TimeoutExpired, Raised TimeoutExpired, Raised TimeoutExpired])))
       = Some (assignment ''AD-1'')"
    by code_simp
  have 3: "availability_domains sample_params \<noteq> [] \<and> (1::int) \<le> 5 \<and> 5 \<le> max_attempts sample_params
   \<and> length (availability_domains sample_params) = 3
   \<and> current_ad (availability_domains sample_params) 5 = Inr ''AD-2''
   \<and> map (current_ad (availability_domains sample_params)) [1, 2, 3, 4, 5, 6, 7]
       = map Inr [''AD-1'', ''AD-2'', ''AD-3'', ''AD-1'', ''AD-2'', ''AD-3'', ''AD-1'']"
    using zone_round_robin [of sample_params 5 "sample_world None None []"
        "availability_domains sample_params"]
    by (simp add: sample_params_def)
  from 1 2 3 show ?thesis by blast
qed

text \<open>
  C10. With a non-empty zone list, zone selection succeeds for every attempt number
  \<open>N \<ge> 1\<close>: the remainder is defined, the index lies within the list, and the zone is an
  entry of the list. With the empty list the remainder raises \<open>ZeroDivisionError\<close>, and
  so does the driver as soon as it enters the loop.
\<close>

theorem zone_selection_total:
  "(ads \<noteq> [] \<and> 1 \<le> attempt \<longrightarrow>
      (\<exists>i. region_index ads attempt = Inr i \<and> 0 \<le> i \<and> i < int (length ads) \<and>
           current_ad ads attempt = Inr (ads ! nat i) \<and> ads ! nat i \<in> set ads))
   \<and> region_index [] attempt = Inl ZeroDivisionError
   \<and> current_ad [] attempt = Inl ZeroDivisionError
   \<and> (dir_exists w \<and> 1 \<le> max_attempts p \<and> availability_domains p = [] \<longrightarrow>
        run_terraform_apply p w = (Inl ZeroDivisionError, w))"
proof (intro conjI impI)
  assume a: "ads \<noteq> [] \<and> 1 \<le> attempt"
  let ?n = "int (length ads)"
  let ?i = "(attempt - 1) mod ?n"
  from a have pos: "0 < ?n" by simp
  then have b: "0 \<le> ?i" "?i < ?n"
    by (simp_all only: pos_mod_sign pos_mod_bound)
  then have "nat ?i < length ads" by linarith
  then have "ads ! nat ?i \<in> set ads" by (rule nth_mem)
  with a b show "\<exists>i. region_index ads attempt = Inr i \<and> 0 \<le> i \<and> i < int (length ads) \<and>
           current_ad ads attempt = Inr (ads ! nat i) \<and> ads ! nat i \<in> set ads"
    using region_index_nonempty [of ads attempt] current_ad_nonempty [of ads attempt] by blast
next
  show "region_index [] attempt = Inl ZeroDivisionError"
    by (simp add: region_index_def py_mod_def)
  then show "current_ad [] attempt = Inl ZeroDivisionError"
    by (simp add: current_ad_def)
next
  assume a: "dir_exists w \<and> 1 \<le> max_attempts p \<and> availability_domains p = []"
  then have "loop_body p 1 w = (Inl ZeroDivisionError, w)"
    by (simp add: loop_body_def current_ad_def region_index_def py_mod_def)
  with a show "run_terraform_apply p w = (Inl ZeroDivisionError, w)"
    by (simp add: run_terraform_apply_def while_loop.simps [of p 1 w])
qed

theorem zone_selection_total_witness:
  "[''AD-1'', ''AD-2''] \<noteq> [] \<and> (1::int) \<le> 3
   \<and> region_index [''AD-1'', ''AD-2''] 3 = Inr 0
   \<and> current_ad [''AD-1'', ''AD-2''] 3 = Inr ''AD-1''
   \<and> dir_exists (sample_world None None [])
   \<and> 1 \<le> max_attempts (sample_params\<lparr>availability_domains := []\<rparr>)
   \<and> availability_domains (sample_params\<lparr>availability_domains := []\<rparr>) = []
   \<and> fst (run_terraform_apply (sample_params\<lparr>availability_domains := []\<rparr>)
            (sample_world None None [])) = Inl ZeroDivisionError"
  using zone_selection_total [of "[''AD-1'', ''AD-2'']" 3 "sample_world None None []"
      "sample_params\<lparr>availability_domains := []\<rparr>"]
  by (auto simp: region_index_def py_mod_def sample_params_def sample_world_def)

section \<open>Cleanup\<close>

lemma cmd_not_destroy: "cmd p \<noteq> destroy_cmd aa"
  by (simp add: cmd_def destroy_cmd_def)

lemma allowed_no_cleanup: "no_cleanup p \<Longrightarrow> allowed p e \<Longrightarrow> \<not> is_destroy e"
  by (cases e) (auto simp: allowed_def is_destroy_def cmd_not_destroy)

lemma allowed_destroy_limit:
  "allowed p e \<Longrightarrow> is_destroy e \<Longrightarrow> e = Run (destroy_cmd (auto_approve p)) 1800"
  by (cases e) (auto simp: allowed_def is_destroy_def cmd_not_destroy)

text \<open>
  C7. With the no-cleanup flag set, whatever the child processes do, the events that a run
  of the driver adds to the trace hold no destroy run.
\<close>

theorem no_cleanup_never_destroys:
  assumes "no_cleanup p"
  shows "\<exists>evs. trace (snd (run_terraform_apply p w)) = trace w @ evs
           \<and> filter is_destroy evs = []"
proof -
  from run_terraform_apply_extends [of p w]
  obtain evs where t: "trace (snd (run_terraform_apply p w)) = trace w @ evs"
    and a: "list_all (allowed p) evs"
    by (auto simp: extends_def)
  from a assms have "filter is_destroy evs = []"
    by (auto simp: filter_empty_conv list_all_iff dest: allowed_no_cleanup)
  with t show ?thesis by blast
qed

theorem no_cleanup_never_destroys_witness:
  "no_cleanup (sample_params\<lparr>no_cleanup := True\<rparr>)
   \<and> fst (run_terraform_apply (sample_params\<lparr>no_cleanup := True\<rparr>)
        (sample_world (Some (assignment ''AD-9'')) None
           [Exited 1 [] ''Error: Out of host capacity'', Raised TimeoutExpired, Raised OSError]))
       = Inr False
   \<and> filter is_destroy
        (trace (snd (run_terraform_apply (sample_params\<lparr>no_cleanup := True\<rparr>)
           (sample_world (Some (assignment ''AD-9'')) None
              [Exited 1 [] ''Error: Out of host capacity'', Raised TimeoutExpired, Raised OSError]))))
       = []"
proof -
  let ?p = "sample_params\<lparr>no_cleanup := True\<rparr>"
  let ?w = "sample_world (Some (assignment ''AD-9'')) None
              [Exited 1 [] ''Error: Out of host capacity'', Raised TimeoutExpired, Raised OSError]"
  have h: "no_cleanup ?p" by simp
  have r: "fst (run_terraform_apply ?p ?w) = Inr False" by code_simp
  have "trace ?w = []" by (simp add: sample_world_def)
  with no_cleanup_never_destroys [OF h, of ?w]
  have "filter is_destroy (trace (snd (run_terraform_apply ?p ?w))) = []" by auto
  with h r show ?thesis by blast
qed

text \<open>
  C9. \<open>cleanup_resources\<close> always returns normally: whether the destroy run exits with 0,
  exits with another code, exceeds its time limit or raises anything else, the outcome is
  logged and nothing is raised. The destroy run has the time limit 1800; in a run of the
  driver every destroy run has that limit, whatever time limit the driver was given.
\<close>

theorem cleanup_never_raises:
  "cleanup_resources aa w =
     (Inr (),
      w\<lparr>spawned := spawned w + 1,
        trace := trace w
          @ [Log Info ''Running terraform destroy to clean up all resources...'' [],
             Run (destroy_cmd aa) 1800]
          @ (case procs w (spawned w) of
               Exited rc out err \<Rightarrow>
                 if rc = 0 then
                   [Log Info ''Successfully cleaned up all resources'' [],
                    Log Info ''Destroy output:\<newline>%s'' [S out]]
                 else
                   [Log Error ''Failed to clean up resources (exit code: %d)'' [I rc],
                    Log Error ''Destroy error output:\<newline>%s'' [S err]]
             | Raised e \<Rightarrow>
                 if e = TimeoutExpired then [Log Exception ''Terraform destroy timed out'' []]
                 else [Log Exception ''Unexpected error during resource cleanup:'' []])\<rparr>)
   \<and> (\<exists>evs. trace (snd (run_terraform_apply p v)) = trace v @ evs
         \<and> (\<forall>ev \<in> set evs. is_destroy ev \<longrightarrow> ev = Run (destroy_cmd (auto_approve p)) 1800))"
proof
  show "cleanup_resources aa w =
     (Inr (),
      w\<lparr>spawned := spawned w + 1,
        trace := trace w
          @ [Log Info ''Running terraform destroy to clean up all resources...'' [],
             Run (destroy_cmd aa) 1800]
          @ (case procs w (spawned w) of
               Exited rc out err \<Rightarrow>
                 if rc = 0 then
                   [Log Info ''Successfully cleaned up all resources'' [],
                    Log Info ''Destroy output:\<newline>%s'' [S out]]
                 else
                   [Log Error ''Failed to clean up resources (exit code: %d)'' [I rc],
                    Log Error ''Destroy error output:\<newline>%s'' [S err]]
             | Raised e \<Rightarrow>
                 if e = TimeoutExpired then [Log Exception ''Terraform destroy timed out'' []]
                 else [Log Exception ''Unexpected error during resource cleanup:'' []])\<rparr>)"
    by (simp only: cleanup_resources_result cleanup_logs_def)
next
  from run_terraform_apply_extends [of p v]
  obtain evs where t: "trace (snd (run_terraform_apply p v)) = trace v @ evs"
    and a: "list_all (allowed p) evs"
    by (auto simp: extends_def)
  from a have "\<forall>ev \<in> set evs. is_destroy ev \<longrightarrow> ev = Run (destroy_cmd (auto_approve p)) 1800"
    by (auto simp: list_all_iff dest: allowed_destroy_limit)
  with t show "\<exists>evs. trace (snd (run_terraform_apply p v)) = trace v @ evs
         \<and> (\<forall>ev \<in> set evs. is_destroy ev \<longrightarrow> ev = Run (destroy_cmd (auto_approve p)) 1800)"
    by blast
qed

theorem cleanup_never_raises_witness:
  "cleanup_resources True (sample_world None None [Raised TimeoutExpired])
     = (Inr (),
        (sample_world None None [Raised TimeoutExpired])
          \<lparr>spawned := 1,
           trace := [Log Info ''Running terraform destroy to clean up all resources...'' [],
                     Run [''terraform'', ''destroy'', ''-auto-approve''] 1800,
                     Log Exception ''Terraform destroy timed out'' []]\<rparr>)
   \<and> timeout sample_params = 600
   \<and> filter is_destroy
        (trace (snd (run_terraform_apply sample_params
           (sample_world None None [Exited 1 [] ''Error: quota exceeded'', Raised OSError]))))
       = [Run [''terraform'', ''destroy'', ''-auto-approve''] 1800]"
proof -
  let ?w = "sample_world None None [Raised TimeoutExpired]"
  let ?v = "sample_world None None [Exited 1 [] ''Error: quota exceeded'', Raised OSError]"
  note inst = cleanup_never_raises [of True ?w sample_params ?v]
  have 1: "cleanup_resources True ?w
     = (Inr (),
        ?w\<lparr>spawned := 1,
           trace := [Log Info ''Running terraform destroy to clean up all resources...'' [],
                     Run [''terraform'', ''destroy'', ''-auto-approve''] 1800,
                     Log Exception ''Terraform destroy timed out'' []]\<rparr>)"
    using inst by (simp add: sample_world_def destroy_cmd_def)
  have 2: "timeout sample_params = 600" by (simp add: sample_params_def)
  have 3: "filter is_destroy (trace (snd (run_terraform_apply sample_params ?v)))
       = [Run [''terraform'', ''destroy'', ''-auto-approve''] 1800]"
    by code_simp
  from 1 2 3 show ?thesis by blast
qed

section \<open>Templates without a backslash\<close>

lemma parse_template_plain:
  "backslash \<notin> set s \<Longrightarrow> parse_template s = Inr (map (\<lambda>c. Lit [c]) s)"
  by (induction s) auto

lemma expand_plain: "expand (map (\<lambda>c. Lit [c]) s) matched = s"
  by (induction s) (simp_all add: expand_def)

lemma re_sub_plain:
  assumes "backslash \<notin> set repl"
  shows "re_sub repl content = Inr (sub_all (\<lambda>matched. repl) content)"
proof -
  have "expand (map (\<lambda>c. Lit [c]) repl) = (\<lambda>matched. repl)"
    by (rule ext) (rule expand_plain)
  with assms show ?thesis
    by (simp add: re_sub_def parse_template_plain)
qed

lemma re_sub_assignment:
  "backslash \<notin> set ad
    \<Longrightarrow> re_sub (assignment ad) content = Inr (sub_all (\<lambda>matched. assignment ad) content)"
  by (rule re_sub_plain) (auto simp: assignment_def)

lemma update_legacy_ok: "backslash \<notin> set ad \<Longrightarrow> fst (update_legacy ad w) = Inr ()"
  by (simp add: update_legacy_def Let_def re_sub_assignment split: option.splits)

lemma update_main_tf_ok: "backslash \<notin> set ad \<Longrightarrow> fst (update_main_tf ad w) = Inr ()"
  by (simp add: update_main_tf_def Let_def re_sub_assignment update_legacy_ok split: option.splits)

section \<open>One attempt\<close>

text \<open>
  The statements about an attempt suppose that the attempt reaches its \<open>try\<close> statement:
  the loop test holds, a zone is selected, and the editor, called with that zone, returns
  (it raises only when the zone text is a template that \<open>re.sub\<close> rejects). The child
  processes of the attempt are then numbered from \<open>spawned w\<close>.
\<close>

lemma inert_simps [simp]:
  "inert (Log m s a)" "inert (WriteText f c)" "\<not> inert (Run cm t)" "\<not> inert (Sleep d)"
  by (simp_all add: inert_def)

lemma update_legacy_inert:
  "extends inert w w1 \<Longrightarrow> extends inert w (snd (update_legacy ad w1))"
  by (auto simp: update_legacy_def Let_def extends_def log_def emit_def
      split: option.splits sum.splits)

lemma update_main_tf_inert:
  "extends inert w w1 \<Longrightarrow> extends inert w (snd (update_main_tf ad w1))"
  by (auto simp: update_main_tf_def Let_def split: option.splits sum.splits
      intro!: update_legacy_inert extends_log_after)
    (auto simp: extends_def log_def emit_def)

lemma before_try_frame:
  "procs (before_try p attempt ad w) = procs w"
  "spawned (before_try p attempt ad w) = spawned w"
  "debug_enabled (before_try p attempt ad w) = debug_enabled w"
  "sleep_max (before_try p attempt ad w) = sleep_max w"
  by (simp_all add: before_try_def update_main_tf_frame log_frame)

lemma before_try_inert: "extends inert w (before_try p attempt ad w)"
  unfolding before_try_def
  by (intro extends_log_after update_main_tf_inert) simp_all

lemma loop_body_unfold:
  assumes "current_ad (availability_domains p) attempt = Inr ad"
    and "fst (update_main_tf ad w) = Inr ()"
  shows "loop_body p attempt w = try_stmt p attempt (before_try p attempt ad w)"
proof -
  let ?w1 = "log Info ''Attempt %d/%d: Using AD %s'' [I attempt, I (max_attempts p), S ad] w"
  from assms(2) have "fst (update_main_tf ad ?w1) = Inr ()"
    by (simp only: update_main_tf_log)
  then obtain w2 where "update_main_tf ad ?w1 = (Inr (), w2)"
    by (cases "update_main_tf ad ?w1") simp
  with assms(1) show ?thesis
    by (simp add: loop_body_def attempt_with_def before_try_def)
qed

lemma while_loop_continue:
  "attempt \<le> max_attempts p \<Longrightarrow> fst (loop_body p attempt w) = Inr Continue
    \<Longrightarrow> while_loop p attempt w = while_loop p (attempt + 1) (snd (loop_body p attempt w))"
  by (cases "loop_body p attempt w") (simp add: while_loop.simps [of p attempt w])

lemma while_loop_return:
  "attempt \<le> max_attempts p \<Longrightarrow> fst (loop_body p attempt w) = Inr (Return b)
    \<Longrightarrow> while_loop p attempt w = (Inr b, snd (loop_body p attempt w))"
  by (cases "loop_body p attempt w") (simp add: while_loop.simps [of p attempt w])

text \<open>
  When the body of an attempt below \<open>max_attempts\<close> ends with \<open>continue\<close>, the next thing
  in the trace is the announcement of the next attempt; when the body of the last attempt
  ends so, the loop is left.
\<close>

lemma current_ad_Inr_nonempty: "current_ad ads attempt = Inr ad \<Longrightarrow> ads \<noteq> []"
  by (auto simp: current_ad_def region_index_def py_mod_def)

lemma continue_announces_next:
  assumes "attempt < max_attempts p"
    and "current_ad (availability_domains p) attempt = Inr ad"
    and "fst (loop_body p attempt w) = Inr Continue"
  shows "\<exists>ad' evs. current_ad (availability_domains p) (attempt + 1) = Inr ad'
    \<and> trace (snd (while_loop p attempt w))
      = trace (snd (loop_body p attempt w))
        @ Log Info ''Attempt %d/%d: Using AD %s'' [I (attempt + 1), I (max_attempts p), S ad'] # evs"
proof -
  let ?w' = "snd (loop_body p attempt w)"
  from assms(2) have ne: "availability_domains p \<noteq> []"
    by (rule current_ad_Inr_nonempty)
  then obtain ad' where n: "current_ad (availability_domains p) (attempt + 1) = Inr ad'"
    using current_ad_nonempty by blast
  from assms(1) have le: "attempt \<le> max_attempts p" "attempt + 1 \<le> max_attempts p"
    by simp_all
  have "while_loop p attempt w = while_loop p (attempt + 1) ?w'"
    using le(1) assms(3) by (rule while_loop_continue)
  with while_loop_announces [OF le(2) n, of ?w'] n show ?thesis
    by auto
qed

lemma continue_leaves_loop:
  assumes "attempt = max_attempts p" "fst (loop_body p attempt w) = Inr Continue"
  shows "while_loop p attempt w = after_loop p (snd (loop_body p attempt w))"
proof -
  have "while_loop p attempt w = while_loop p (attempt + 1) (snd (loop_body p attempt w))"
    using assms by (intro while_loop_continue) simp_all
  also have "\<dots> = after_loop p (snd (loop_body p attempt w))"
  proof -
    have "\<not> attempt + 1 \<le> max_attempts p" using assms(1) by simp
    then show ?thesis by (subst while_loop.simps) simp
  qed
  finally show ?thesis .
qed

text \<open>What the \<open>try\<close> statement does, by the outcome of the run it starts.\<close>

lemma try_stmt_timeout:
  assumes "procs w (spawned w) = Raised TimeoutExpired"
  shows "try_stmt p attempt w =
    (Inr Continue,
     log Warning ''Terraform apply timed out. Retrying...'' []
       ((emit (Run (cmd p) (timeout p)) w)\<lparr>spawned := spawned w + 1\<rparr>))"
  using assms by (simp add: try_stmt_def try_body_def subprocess_run_def)

lemma try_stmt_plan_failed:
  assumes "procs w (spawned w) = Exited rc out err" "rc \<noteq> 0" "plan_only p"
  shows "try_stmt p attempt w =
    (Inr (Return False),
     debug_log ''Error output:\<newline>%s'' [S err]
       (log Warning ''Terraform %s failed (exit code: %d)'' [S ''plan'', I rc]
          ((emit (Run [''terraform'', ''plan''] (timeout p)) w)\<lparr>spawned := spawned w + 1\<rparr>)))"
  using assms by (simp add: try_stmt_def try_body_def subprocess_run_def operation_def cmd_def)

lemma is_sleep_simps [simp]:
  "is_sleep (Sleep d)" "\<not> is_sleep (Log m s a)" "\<not> is_sleep (Run c t)"
  "\<not> is_sleep (WriteText f x)"
  by (simp_all add: is_sleep_def)

lemma cleanup_logs_no_sleep: "list_all (\<lambda>e. \<not> is_sleep e) (cleanup_logs r)"
  by (cases r) (simp_all add: cleanup_logs_def)

lemma after_failure_no_sleep: "extends (\<lambda>e. \<not> is_sleep e) w (after_failure p rc err w)"
  by (simp add: after_failure_def Let_def extends_def cleanup_resources_result debug_log_def
      log_def emit_def cleanup_logs_no_sleep)

lemma after_failure_sleep_max: "sleep_max (after_failure p rc err w) = sleep_max w"
  by (simp add: after_failure_def Let_def cleanup_resources_result debug_log_def log_def emit_def)

lemma try_stmt_apply_failed:
  assumes "procs w (spawned w) = Exited rc out err" "rc \<noteq> 0" "\<not> plan_only p"
    "0 \<le> retry_delay p" "retry_delay p \<le> sleep_max w"
  shows "try_stmt p attempt w =
    (if recoverable (lower err) then
       if attempt < max_attempts p then
         (Inr Continue,
          emit (Sleep (retry_delay p))
            (log Info ''Detected recoverable error (host capacity). Retrying in %d seconds...''
               [I (retry_delay p)] (after_failure p rc err w)))
       else
         (Inr (Return False),
          log Error ''Detected recoverable error but no more attempts available.'' []
            (after_failure p rc err w))
     else
       (Inr (Return False),
        log Error ''Non-recoverable error detected. Stopping retries.'' []
          (after_failure p rc err w)))"
  using assms
  by (simp add: try_stmt_def try_body_def subprocess_run_def after_failure_def Let_def
      cleanup_resources_result sleep_def log_def emit_def debug_log_def)

lemma py_in_sublist: "py_in needle hay \<longleftrightarrow> sublist needle hay"
  by (induction hay) (simp_all add: sublist_Cons_right)

text \<open>
  C8, amended by the condition that attempts remain. When the apply or plan run of an
  attempt exceeds its time limit, the body of the attempt ends with \<open>continue\<close>; since
  the start of the attempt the trace has gained the run itself and the warning, after
  events that are neither runs nor sleeps: there is no sleep and no destroy run. When the
  attempt number is below \<open>max_attempts\<close>, the loop goes on with the attempt number raised
  by one, and the next event of the trace is the announcement of that attempt. On the
  last attempt the loop is left instead, and the driver goes on with what follows the
  loop.
\<close>

theorem timeout_retries_at_once:
  assumes "attempt \<le> max_attempts p"
    and "current_ad (availability_domains p) attempt = Inr ad"
    and "fst (update_main_tf ad w) = Inr ()"
    and "procs w (spawned w) = Raised TimeoutExpired"
  shows "fst (loop_body p attempt w) = Inr Continue
    \<and> spawned (snd (loop_body p attempt w)) = spawned w + 1
    \<and> (\<exists>evs. trace (snd (loop_body p attempt w))
              = trace w @ evs
                @ [Run (cmd p) (timeout p), Log Warning ''Terraform apply timed out. Retrying...'' []]
            \<and> list_all inert evs)
    \<and> (if attempt < max_attempts p
        then while_loop p attempt w = while_loop p (attempt + 1) (snd (loop_body p attempt w))
           \<and> (\<exists>ad' evs. current_ad (availability_domains p) (attempt + 1) = Inr ad'
                 \<and> trace (snd (while_loop p attempt w))
                   = trace (snd (loop_body p attempt w))
                     @ Log Info ''Attempt %d/%d: Using AD %s''
                         [I (attempt + 1), I (max_attempts p), S ad'] # evs)
        else while_loop p attempt w = after_loop p (snd (loop_body p attempt w)))"
    (is "?C \<and> ?S \<and> ?T \<and> (if _ then ?X else ?Y)")
proof -
  let ?w1 = "before_try p attempt ad w"
  have t: "procs ?w1 (spawned ?w1) = Raised TimeoutExpired"
    using assms(4) by (simp add: before_try_frame)
  have b: "loop_body p attempt w =
      (Inr Continue,
       log Warning ''Terraform apply timed out. Retrying...'' []
         ((emit (Run (cmd p) (timeout p)) ?w1)\<lparr>spawned := spawned ?w1 + 1\<rparr>))"
    using loop_body_unfold [OF assms(2,3)] try_stmt_timeout [OF t] by simp
  then have c: "?C" by simp
  from before_try_inert [of w p attempt ad]
  obtain evs where e: "trace ?w1 = trace w @ evs" "list_all inert evs"
    by (auto simp: extends_def)
  have "trace (snd (loop_body p attempt w))
      = trace w @ evs
        @ [Run (cmd p) (timeout p), Log Warning ''Terraform apply timed out. Retrying...'' []]"
    using b e(1) by (simp add: log_def emit_def)
  with e(2) have tr: "?T" by blast
  have sp: "?S"
    using b by (simp add: log_def emit_def before_try_frame)
  have "if attempt < max_attempts p then ?X else ?Y"
  proof (cases "attempt < max_attempts p")
    case True
    have x: "?X"
      using while_loop_continue [OF assms(1) c] continue_announces_next [OF True assms(2) c]
      by (rule conjI)
    have "(if attempt < max_attempts p then ?X else ?Y) = ?X" using True by (rule if_P)
    from iffD2 [OF this x] show ?thesis .
  next
    case False
    with assms(1) have "attempt = max_attempts p" by simp
    then have y: "?Y" using c by (rule continue_leaves_loop)
    have "(if attempt < max_attempts p then ?X else ?Y) = ?Y" using False by (rule if_not_P)
    from iffD2 [OF this y] show ?thesis .
  qed
  with c sp tr show ?thesis by (intro conjI)
qed

theorem timeout_retries_at_once_witness:
  "(2::int) \<le> max_attempts sample_params
   \<and> current_ad (availability_domains sample_params) 2 = Inr ''AD-2''
   \<and> fst (update_main_tf ''AD-2''
        (sample_world (Some (assignment ''AD-1'')) None [Raised TimeoutExpired])) = Inr ()
   \<and> procs (sample_world (Some (assignment ''AD-1'')) None [Raised TimeoutExpired])
        (spawned (sample_world (Some (assignment ''AD-1'')) None [Raised TimeoutExpired]))
      = Raised TimeoutExpired
   \<and> (2::int) < max_attempts sample_params
   \<and> fst (loop_body sample_params 2
        (sample_world (Some (assignment ''AD-1'')) None [Raised TimeoutExpired])) = Inr Continue
   \<and> while_loop sample_params 2
        (sample_world (Some (assignment ''AD-1'')) None [Raised TimeoutExpired])
      = while_loop sample_params (2 + 1)
          (snd (loop_body sample_params 2
             (sample_world (Some (assignment ''AD-1'')) None [Raised TimeoutExpired])))
   \<and> filter is_announcement
        (trace (snd (while_loop sample_params 2
           (sample_world (Some (assignment ''AD-1'')) None [Raised TimeoutExpired]))))
      = [Log Info ''Attempt %d/%d: Using AD %s'' [I 2, I 5, S ''AD-2''],
         Log Info ''Attempt %d/%d: Using AD %s'' [I 3, I 5, S ''AD-3'']]"
proof -
  let ?w = "sample_world (Some (assignment ''AD-1'')) None [Raised TimeoutExpired]"
  have 1: "(2::int) \<le> max_attempts sample_params" by (simp add: sample_params_def)
  have 2: "current_ad (availability_domains sample_params) 2 = Inr ''AD-2''" by code_simp
  have 3: "fst (update_main_tf ''AD-2'' ?w) = Inr ()" by code_simp
  have 4: "procs ?w (spawned ?w) = Raised TimeoutExpired" by (simp add: sample_world_def)
  have 5: "(2::int) < max_attempts sample_params" by (simp add: sample_params_def)
  have 6: "filter is_announcement (trace (snd (while_loop sample_params 2 ?w)))
      = [Log Info ''Attempt %d/%d: Using AD %s'' [I 2, I 5, S ''AD-2''],
         Log Info ''Attempt %d/%d: Using AD %s'' [I 3, I 5, S ''AD-3'']]"
    by code_simp
  from timeout_retries_at_once [OF 1 2 3 4] 5
  have "fst (loop_body sample_params 2 ?w) = Inr Continue
    \<and> while_loop sample_params 2 ?w
      = while_loop sample_params (2 + 1) (snd (loop_body sample_params 2 ?w))"
    by simp
  with 1 2 3 4 5 6 show ?thesis by blast
qed

text \<open>
  Without that condition the claim fails: when the only attempt exceeds the time limit,
  there is no further attempt and the destroy run follows at once.
\<close>

theorem timeout_retries_at_once_counterexample:
  "procs (sample_world None None [Raised TimeoutExpired]) 0 = Raised TimeoutExpired
   \<and> fst (run_terraform_apply (sample_params\<lparr>max_attempts := 1\<rparr>)
        (sample_world None None [Raised TimeoutExpired])) = Inr False
   \<and> filter is_announcement
        (trace (snd (run_terraform_apply (sample_params\<lparr>max_attempts := 1\<rparr>)
           (sample_world None None [Raised TimeoutExpired]))))
      = [Log Info ''Attempt %d/%d: Using AD %s'' [I 1, I 1, S ''AD-1'']]
   \<and> filter is_run
        (trace (snd (run_terraform_apply (sample_params\<lparr>max_attempts := 1\<rparr>)
           (sample_world None None [Raised TimeoutExpired]))))
      = [Run [''terraform'', ''apply'', ''-auto-approve''] 600,
         Run [''terraform'', ''destroy'', ''-auto-approve''] 1800]"
  by code_simp

text \<open>
  C6. In plan-only mode, when the plan run of an attempt exits with a code other than 0,
  the loop returns false with the world the attempt left: the plan run is the only child
  process of the attempt, so there is no destroy run, no sleep and no further attempt.
\<close>

theorem plan_only_failure_is_final:
  assumes "attempt \<le> max_attempts p"
    and "current_ad (availability_domains p) attempt = Inr ad"
    and "backslash \<notin> set ad"
    and "procs w (spawned w) = Exited rc out err"
    and "rc \<noteq> 0"
    and "plan_only p"
  shows "while_loop p attempt w = (Inr False, snd (loop_body p attempt w))
    \<and> spawned (snd (loop_body p attempt w)) = spawned w + 1
    \<and> (\<exists>evs logs. trace (snd (loop_body p attempt w))
              = trace w @ evs @ [Run [''terraform'', ''plan''] (timeout p)] @ logs
            \<and> list_all inert evs \<and> list_all inert logs)"
proof -
  let ?w1 = "before_try p attempt ad w"
  let ?logs = "Log Warning ''Terraform %s failed (exit code: %d)'' [S ''plan'', I rc]
       # (if debug_enabled w then [Log Debug ''Error output:\<newline>%s'' [S err]] else [])"
  have u: "fst (update_main_tf ad w) = Inr ()"
    using assms(3) by (rule update_main_tf_ok)
  have t: "procs ?w1 (spawned ?w1) = Exited rc out err"
    using assms(4) by (simp add: before_try_frame)
  have b: "loop_body p attempt w =
      (Inr (Return False),
       debug_log ''Error output:\<newline>%s'' [S err]
         (log Warning ''Terraform %s failed (exit code: %d)'' [S ''plan'', I rc]
            ((emit (Run [''terraform'', ''plan''] (timeout p)) ?w1)\<lparr>spawned := spawned ?w1 + 1\<rparr>)))"
    using loop_body_unfold [OF assms(2) u] try_stmt_plan_failed [OF t assms(5,6)] by simp
  then have c: "fst (loop_body p attempt w) = Inr (Return False)" by simp
  from before_try_inert [of w p attempt ad]
  obtain evs where e: "trace ?w1 = trace w @ evs" "list_all inert evs"
    by (auto simp: extends_def)
  have "trace (snd (loop_body p attempt w))
      = trace w @ evs @ [Run [''terraform'', ''plan''] (timeout p)] @ ?logs"
    using b e(1) by (simp add: debug_log_def log_def emit_def before_try_frame)
  moreover have "list_all inert ?logs" by simp
  ultimately have "\<exists>evs logs. trace (snd (loop_body p attempt w))
              = trace w @ evs @ [Run [''terraform'', ''plan''] (timeout p)] @ logs
            \<and> list_all inert evs \<and> list_all inert logs"
    using e(2) by blast
  moreover have "spawned (snd (loop_body p attempt w)) = spawned w + 1"
    using b by (simp add: debug_log_def log_def emit_def before_try_frame)
  ultimately show ?thesis
    using while_loop_return [OF assms(1) c] by blast
qed

theorem plan_only_failure_is_final_witness:
  "(1::int) \<le> max_attempts (sample_params\<lparr>plan_only := True\<rparr>)
   \<and> current_ad (availability_domains (sample_params\<lparr>plan_only := True\<rparr>)) 1 = Inr ''AD-1''
   \<and> backslash \<notin> set ''AD-1''
   \<and> procs (sample_world None None [Exited 1 [] ''Error: Out of host capacity''])
        (spawned (sample_world None None [Exited 1 [] ''Error: Out of host capacity'']))
      = Exited 1 [] ''Error: Out of host capacity''
   \<and> (1::int) \<noteq> 0
   \<and> plan_only (sample_params\<lparr>plan_only := True\<rparr>)
   \<and> fst (while_loop (sample_params\<lparr>plan_only := True\<rparr>) 1
        (sample_world None None [Exited 1 [] ''Error: Out of host capacity''])) = Inr False
   \<and> spawned (snd (while_loop (sample_params\<lparr>plan_only := True\<rparr>) 1
        (sample_world None None [Exited 1 [] ''Error: Out of host capacity'']))) = 1"
proof -
  let ?p = "sample_params\<lparr>plan_only := True\<rparr>"
  let ?w = "sample_world None None [Exited 1 [] ''Error: Out of host capacity'']"
  have 1: "(1::int) \<le> max_attempts ?p" by (simp add: sample_params_def)
  have 2: "current_ad (availability_domains ?p) 1 = Inr ''AD-1''" by code_simp
  have 3: "backslash \<notin> set ''AD-1''" by simp
  have 4: "procs ?w (spawned ?w) = Exited 1 [] ''Error: Out of host capacity''"
    by (simp add: sample_world_def)
  have 5: "(1::int) \<noteq> 0" by simp
  have 6: "plan_only ?p" by simp
  have 7: "spawned ?w = 0" by (simp add: sample_world_def)
  from plan_only_failure_is_final [OF 1 2 3 4 5 6] 7
  have "fst (while_loop ?p 1 ?w) = Inr False \<and> spawned (snd (while_loop ?p 1 ?w)) = 1"
    by simp
  with 1 2 3 4 5 6 show ?thesis by blast
qed

text \<open>
  C1, amended by the condition that \<open>time.sleep\<close> takes the retry delay: the delay is
  not negative and not beyond the longest delay of the platform. After an apply run that
  exits with a code other than 0 (not in plan-only mode), the loop goes on to the next
  attempt exactly when the lower-cased error text contains \<open>out of host capacity\<close> or
  \<open>internalerror\<close> and the attempt number is below \<open>max_attempts\<close>; it then sleeps
  for the retry delay as the last step of the attempt, that is its only sleep, and the
  next event of the trace is the announcement of the next attempt. In every other case
  the loop returns false with the world the attempt left, and the attempt does not sleep.
\<close>

theorem failed_apply_decision:
  assumes "attempt \<le> max_attempts p"
    and "current_ad (availability_domains p) attempt = Inr ad"
    and "fst (update_main_tf ad w) = Inr ()"
    and "procs w (spawned w) = Exited rc out err"
    and "rc \<noteq> 0"
    and "\<not> plan_only p"
    and "0 \<le> retry_delay p"
    and "retry_delay p \<le> sleep_max w"
  shows "(fst (loop_body p attempt w) = Inr Continue
            \<longleftrightarrow> recoverable (lower err) \<and> attempt < max_attempts p)
    \<and> (recoverable (lower err)
            \<longleftrightarrow> sublist ''out of host capacity'' (lower err)
                \<or> sublist ''internalerror'' (lower err))
    \<and> (if recoverable (lower err) \<and> attempt < max_attempts p
        then while_loop p attempt w = while_loop p (attempt + 1) (snd (loop_body p attempt w))
           \<and> (\<exists>evs. trace (snd (loop_body p attempt w)) = trace w @ evs @ [Sleep (retry_delay p)]
                  \<and> filter is_sleep evs = [])
           \<and> (\<exists>ad' evs. current_ad (availability_domains p) (attempt + 1) = Inr ad'
                 \<and> trace (snd (while_loop p attempt w))
                   = trace (snd (loop_body p attempt w))
                     @ Log Info ''Attempt %d/%d: Using AD %s''
                         [I (attempt + 1), I (max_attempts p), S ad'] # evs)
        else while_loop p attempt w = (Inr False, snd (loop_body p attempt w))
           \<and> (\<exists>evs. trace (snd (loop_body p attempt w)) = trace w @ evs
                  \<and> filter is_sleep evs = []))"
    (is "?I \<and> ?R \<and> (if _ then ?X else ?Y)")
proof -
  let ?w1 = "before_try p attempt ad w"
  let ?w3 = "after_failure p rc err ?w1"
  let ?go = "recoverable (lower err) \<and> attempt < max_attempts p"
  have t: "procs ?w1 (spawned ?w1) = Exited rc out err"
    using assms(4) by (simp add: before_try_frame)
  have m: "retry_delay p \<le> sleep_max ?w1"
    using assms(8) by (simp add: before_try_frame)
  note body = loop_body_unfold [OF assms(2,3)] try_stmt_apply_failed [OF t assms(5,6,7) m]
  from before_try_inert [of w p attempt ad]
  obtain evs1 where e1: "trace ?w1 = trace w @ evs1" "list_all inert evs1"
    by (auto simp: extends_def)
  from after_failure_no_sleep [of ?w1 p rc err]
  obtain evs2 where e2: "trace ?w3 = trace ?w1 @ evs2" "list_all (\<lambda>e. \<not> is_sleep e) evs2"
    by (auto simp: extends_def)
  have ns1: "filter is_sleep evs1 = []"
    using e1(2) by (auto simp: filter_empty_conv list_all_iff inert_def is_sleep_def split: event.splits)
  have ns2: "filter is_sleep evs2 = []"
    using e2(2) by (auto simp: filter_empty_conv list_all_iff)
  have tr3: "trace ?w3 = trace w @ evs1 @ evs2"
    using e1(1) e2(1) by simp
  have iff: "fst (loop_body p attempt w) = Inr Continue \<longleftrightarrow> ?go"
    using body by simp
  have rec: "recoverable (lower err)
      \<longleftrightarrow> sublist ''out of host capacity'' (lower err) \<or> sublist ''internalerror'' (lower err)"
    by (simp only: recoverable_def py_in_sublist)
  show ?thesis
  proof (cases ?go)
    case True
    then have c: "fst (loop_body p attempt w) = Inr Continue" using iff by simp
    have "trace (snd (loop_body p attempt w))
        = trace w
          @ (evs1 @ evs2
             @ [Log Info ''Detected recoverable error (host capacity). Retrying in %d seconds...''
                  [I (retry_delay p)]])
          @ [Sleep (retry_delay p)]"
      using body True tr3 by (simp add: log_def emit_def)
    moreover have "filter is_sleep
        (evs1 @ evs2
         @ [Log Info ''Detected recoverable error (host capacity). Retrying in %d seconds...''
              [I (retry_delay p)]]) = []"
      using ns1 ns2 by simp
    ultimately have "\<exists>evs. trace (snd (loop_body p attempt w)) = trace w @ evs @ [Sleep (retry_delay p)]
        \<and> filter is_sleep evs = []"
      by blast
    moreover from True have "attempt < max_attempts p" by simp
    note continue_announces_next [OF this assms(2) c]
    ultimately have x: "?X"
      using while_loop_continue [OF assms(1) c] by (intro conjI)
    have "(if ?go then ?X else ?Y) = ?X" using True by (rule if_P)
    from iffD2 [OF this x] iff rec show ?thesis by (intro conjI)
  next
    case False
    then have c: "fst (loop_body p attempt w) = Inr (Return False)"
      using body by (simp split: if_splits)
    have "\<exists>m. trace (snd (loop_body p attempt w)) = trace w @ (evs1 @ evs2 @ [Log Error m []])"
      using body False tr3 by (auto simp: log_def emit_def split: if_splits)
    then obtain m where "trace (snd (loop_body p attempt w)) = trace w @ (evs1 @ evs2 @ [Log Error m []])"
      by blast
    moreover have "filter is_sleep (evs1 @ evs2 @ [Log Error m []]) = []"
      using ns1 ns2 by simp
    ultimately have "\<exists>evs. trace (snd (loop_body p attempt w)) = trace w @ evs
        \<and> filter is_sleep evs = []"
      by blast
    with while_loop_return [OF assms(1) c] have y: "?Y" by (rule conjI)
    have "(if ?go then ?X else ?Y) = ?Y" using False by (rule if_not_P)
    from iffD2 [OF this y] iff rec show ?thesis by (intro conjI)
  qed
qed

theorem failed_apply_decision_witness:
  "(1::int) \<le> max_attempts sample_params
   \<and> current_ad (availability_domains sample_params) 1 = Inr ''AD-1''
   \<and> fst (update_main_tf ''AD-1''
        (sample_world None None [Exited 1 [] ''Error: Out of host capacity''])) = Inr ()
   \<and> procs (sample_world None None [Exited 1 [] ''Error: Out of host capacity''])
        (spawned (sample_world None None [Exited 1 [] ''Error: Out of host capacity'']))
      = Exited 1 [] ''Error: Out of host capacity''
   \<and> (1::int) \<noteq> 0
   \<and> \<not> plan_only sample_params
   \<and> 0 \<le> retry_delay sample_params
   \<and> retry_delay sample_params
      \<le> sleep_max (sample_world None None [Exited 1 [] ''Error: Out of host capacity''])
   \<and> recoverable (lower ''Error: Out of host capacity'')
   \<and> fst (loop_body sample_params 1
        (sample_world None None [Exited 1 [] ''Error: Out of host capacity''])) = Inr Continue"
proof -
  let ?p = "sample_params"
  let ?w = "sample_world None None [Exited 1 [] ''Error: Out of host capacity'']"
  have 1: "(1::int) \<le> max_attempts ?p" by (simp add: sample_params_def)
  have 2: "current_ad (availability_domains ?p) 1 = Inr ''AD-1''" by code_simp
  have 3: "fst (update_main_tf ''AD-1'' ?w) = Inr ()" by code_simp
  have 4: "procs ?w (spawned ?w) = Exited 1 [] ''Error: Out of host capacity''"
    by (simp add: sample_world_def)
  have 5: "(1::int) \<noteq> 0" by simp
  have 6: "\<not> plan_only ?p" by (simp add: sample_params_def)
  have 7: "0 \<le> retry_delay ?p" by (simp add: sample_params_def)
  have 8: "recoverable (lower ''Error: Out of host capacity'')" by code_simp
  have 9: "(1::int) < max_attempts ?p" by (simp add: sample_params_def)
  have 10: "retry_delay ?p \<le> sleep_max ?w" by (simp add: sample_params_def sample_world_def)
  from failed_apply_decision [OF 1 2 3 4 5 6 7 10] 8 9
  have "fst (loop_body ?p 1 ?w) = Inr Continue" by blast
  with 1 2 3 4 5 6 7 8 10 show ?thesis by blast
qed

text \<open>
  The claim without the condition on the delay fails. With the retry delay \<open>-1\<close>, the
  marker present and attempts left, the sleep raises, the handler for unexpected errors
  cleans up once more and the driver returns false after a single apply run; the same
  happens with a delay beyond the longest one of the platform.
\<close>

theorem failed_apply_decision_counterexample:
  "recoverable (lower ''Error: Out of host capacity'')
   \<and> (1::int) < max_attempts (sample_params\<lparr>retry_delay := - 1\<rparr>)
   \<and> \<not> plan_only (sample_params\<lparr>retry_delay := - 1\<rparr>)
   \<and> procs (sample_world None None [Exited 1 [] ''Error: Out of host capacity'']) 0
      = Exited 1 [] ''Error: Out of host capacity''
   \<and> fst (loop_body (sample_params\<lparr>retry_delay := - 1\<rparr>) 1
        (sample_world None None [Exited 1 [] ''Error: Out of host capacity'']))
      = Inr (Return False)
   \<and> fst (run_terraform_apply (sample_params\<lparr>retry_delay := - 1\<rparr>)
        (sample_world None None [Exited 1 [] ''Error: Out of host capacity''])) = Inr False
   \<and> filter is_run (trace (snd (run_terraform_apply (sample_params\<lparr>retry_delay := - 1\<rparr>)
        (sample_world None None [Exited 1 [] ''Error: Out of host capacity'']))))
      = [Run [''terraform'', ''apply'', ''-auto-approve''] 600,
         Run [''terraform'', ''destroy'', ''-auto-approve''] 1800,
         Run [''terraform'', ''destroy'', ''-auto-approve''] 1800]
   \<and> fst (loop_body (sample_params\<lparr>retry_delay := 100000000000000000000\<rparr>) 1
        (sample_world None None [Exited 1 [] ''Error: Out of host capacity'']))
      = Inr (Return False)
   \<and> filter is_run
        (trace (snd (run_terraform_apply (sample_params\<lparr>retry_delay := 100000000000000000000\<rparr>)
           (sample_world None None [Exited 1 [] ''Error: Out of host capacity'']))))
      = [Run [''terraform'', ''apply'', ''-auto-approve''] 600,
         Run [''terraform'', ''destroy'', ''-auto-approve''] 1800,
         Run [''terraform'', ''destroy'', ''-auto-approve''] 1800]"
  by code_simp

section \<open>Exit status\<close>

text \<open>
  C3, amended in its last part. The exit status of the process is 0 when the driver
  reports success and 1 when it reports failure; with both \<open>--quiet\<close> and \<open>--verbose\<close>
  on the command line it is 2, the status with which \<open>parser.error\<close> ends the process.
\<close>

theorem exit_status:
  "(quiet a \<and> verbose a \<longrightarrow> exit_code (main a w) = 2)
   \<and> (fst (startup a w) = Inr (Drive ads)
        \<and> fst (run_terraform_apply (driver_params a ads) (snd (startup a w))) = Inr success
      \<longrightarrow> exit_code (main a w) = (if success then 0 else 1))"
proof (intro conjI impI)
  assume "quiet a \<and> verbose a"
  then show "exit_code (main a w) = 2"
    by (simp add: main_def startup_def exit_code_def)
next
  assume h: "fst (startup a w) = Inr (Drive ads)
        \<and> fst (run_terraform_apply (driver_params a ads) (snd (startup a w))) = Inr success"
  obtain w1 where s: "startup a w = (Inr (Drive ads), w1)"
    using h by (cases "startup a w") simp
  with h obtain w2 where "run_terraform_apply (driver_params a ads) w1 = (Inr success, w2)"
    by (cases "run_terraform_apply (driver_params a ads) w1") simp
  with s show "exit_code (main a w) = (if success then 0 else 1)"
    by (simp add: main_def finish_def exit_code_def)
qed

theorem exit_status_witness:
  "quiet (sample_args\<lparr>quiet := True, verbose := True\<rparr>)
   \<and> verbose (sample_args\<lparr>quiet := True, verbose := True\<rparr>)
   \<and> exit_code (main (sample_args\<lparr>quiet := True, verbose := True\<rparr>) (sample_world None None [])) = 2
   \<and> fst (startup sample_args (sample_world None None [])) = Inr (Drive [''AD-1'', ''AD-2''])
   \<and> fst (run_terraform_apply (driver_params sample_args [''AD-1'', ''AD-2''])
            (snd (startup sample_args (sample_world None None [])))) = Inr True
   \<and> exit_code (main sample_args (sample_world None None [])) = 0
   \<and> fst (run_terraform_apply (driver_params sample_args [''AD-1'', ''AD-2''])
            (snd (startup sample_args (sample_world None None [Exited 1 [] ''Error: quota exceeded''])))) = Inr False
   \<and> exit_code (main sample_args (sample_world None None [Exited 1 [] ''Error: quota exceeded''])) = 1"
proof -
  let ?qv = "sample_args\<lparr>quiet := True, verbose := True\<rparr>"
  let ?w = "sample_world None None []"
  let ?v = "sample_world None None [Exited 1 [] ''Error: quota exceeded'']"
  let ?ads = "[''AD-1'', ''AD-2'']"
  have 1: "quiet ?qv \<and> verbose ?qv" by simp
  have 2: "fst (startup sample_args ?w) = Inr (Drive ?ads)" by code_simp
  have 3: "fst (run_terraform_apply (driver_params sample_args ?ads) (snd (startup sample_args ?w)))
      = Inr True" by code_simp
  have 4: "fst (startup sample_args ?v) = Inr (Drive ?ads)" by code_simp
  have 5: "fst (run_terraform_apply (driver_params sample_args ?ads) (snd (startup sample_args ?v)))
      = Inr False" by code_simp
  have a: "exit_code (main ?qv ?w) = 2"
    using exit_status [of ?qv ?w] 1 by blast
  have b: "exit_code (main sample_args ?w) = 0"
    using exit_status [of sample_args ?w ?ads True] 2 3 by simp
  have c: "exit_code (main sample_args ?v) = 1"
    using exit_status [of sample_args ?v ?ads False] 4 5 by simp
  from 1 2 3 5 a b c show ?thesis by blast
qed

text \<open>The claimed status 1 for the two flags together is not what the program gives.\<close>

theorem exit_status_counterexample:
  "exit_code (main (sample_args\<lparr>quiet := True, verbose := True\<rparr>) (sample_world None None [])) \<noteq> 1"
  by (simp add: main_def startup_def exit_code_def)

section \<open>Editing the variables file\<close>

lemma match_here_assignment:
  assumes "dq \<notin> set v"
  shows "match_here (assignment v @ post) = Some (v, post)"
proof -
  have tw: "takeWhile (\<lambda>c. c \<noteq> dq) (v @ dq # post) = v"
    using assms by (induction v) auto
  have dw: "dropWhile (\<lambda>c. c \<noteq> dq) (v @ dq # post) = dq # post"
    using assms by (induction v) auto
  show ?thesis
    by (simp add: match_here_def assignment_def is_space_def tw dw)
qed

lemma sub_all_skip:
  "no_match_before (length pre) (pre @ rest) \<Longrightarrow> sub_all f (pre @ rest) = pre @ sub_all f rest"
  by (induction pre) simp_all

lemma sub_all_unmatched: "no_match_before (length s) s \<Longrightarrow> sub_all f s = s"
  using sub_all_skip [of s "[]" f] by simp

lemma sub_all_one_line:
  assumes "dq \<notin> set v"
    and "no_match_before (length pre) (pre @ assignment v @ post)"
    and "no_match_before (length post) post"
  shows "sub_all f (pre @ assignment v @ post) = pre @ f (assignment v) @ post"
proof -
  have "sub_all f (pre @ assignment v @ post) = pre @ sub_all f (assignment v @ post)"
    using assms(2) by (rule sub_all_skip)
  also have "sub_all f (assignment v @ post) = f (assignment v) @ sub_all f post"
  proof -
    obtain c cs where ne: "assignment v @ post = c # cs"
      by (cases "assignment v @ post") (simp_all add: assignment_def)
    have "take (length (c # cs) - length post) (c # cs) = assignment v"
      unfolding ne [symmetric] by simp
    with ne match_here_assignment [OF assms(1), of post] show ?thesis
      by simp
  qed
  also have "sub_all f post = post"
    using assms(3) by (rule sub_all_unmatched)
  finally show ?thesis .
qed

text \<open>Reading and writing text.\<close>

lemma read_text_Cons: "c \<noteq> CR \<Longrightarrow> read_text (c # s) = c # read_text s"
  by (cases s) simp_all

lemma read_text_plain_append: "CR \<notin> set xs \<Longrightarrow> read_text (xs @ ys) = xs @ read_text ys"
  by (induction xs) (auto simp: read_text_Cons)

lemma read_text_append:
  "y \<noteq> LF \<Longrightarrow> read_text (xs @ y # ys) = read_text xs @ read_text (y # ys)"
  by (induction xs rule: read_text.induct) simp_all

lemma write_text_append: "write_text w (xs @ ys) = write_text w xs @ write_text w ys"
  by (simp add: write_text_def)

lemma write_text_plain: "LF \<notin> set s \<Longrightarrow> write_text w s = s"
  by (induction s) (auto simp: write_text_def)

lemma write_text_line_feed: "linesep w = [LF] \<Longrightarrow> write_text w s = s"
  by (induction s) (auto simp: write_text_def)

lemma read_text_around_assignment:
  "read_text (pre @ assignment v @ post) = read_text pre @ read_text (assignment v @ post)"
  by (simp add: assignment_def read_text_append)

text \<open>
  C5, amended by two conditions: the line is the only text of the file that matches the
  pattern, and the line ends of the file are those that the program writes (the text
  before the line, and the text after it, read with universal newlines and written with
  the line separator of the platform, is the same text again). Then editing a variables
  file that holds the line \<open>availability_domain = "AD-1"\<close> with the target zone AD-2
  leaves that line as \<open>availability_domain = "AD-2"\<close> and all text before and after it as
  it was; the legacy file is not touched.
\<close>

theorem edit_changes_only_the_line:
  assumes "tfvars w = Some (pre @ assignment ''AD-1'' @ post)"
    and "no_match_before (length (read_text pre))
           (read_text pre @ assignment ''AD-1'' @ read_text post)"
    and "no_match_before (length (read_text post)) (read_text post)"
    and "write_text w (read_text pre) = pre"
    and "write_text w (read_text post) = post"
  shows "fst (update_main_tf ''AD-2'' w) = Inr ()
    \<and> tfvars (snd (update_main_tf ''AD-2'' w)) = Some (pre @ assignment ''AD-2'' @ post)
    \<and> main_tf (snd (update_main_tf ''AD-2'' w)) = main_tf w"
proof -
  let ?rp = "read_text pre" and ?rq = "read_text post"
  have "read_text (assignment ''AD-1'' @ post) = assignment ''AD-1'' @ ?rq"
    by (rule read_text_plain_append) (simp add: assignment_def)
  then have r: "read_text (pre @ assignment ''AD-1'' @ post) = ?rp @ assignment ''AD-1'' @ ?rq"
    by (simp only: read_text_around_assignment)
  have "sub_all (\<lambda>matched. assignment ''AD-2'') (?rp @ assignment ''AD-1'' @ ?rq)
      = ?rp @ assignment ''AD-2'' @ ?rq"
    using assms(2,3) by (intro sub_all_one_line) simp_all
  then have s: "re_sub (assignment ''AD-2'') (?rp @ assignment ''AD-1'' @ ?rq)
      = Inr (?rp @ assignment ''AD-2'' @ ?rq)"
    by (simp add: re_sub_assignment)
  have d: "?rp @ assignment ''AD-2'' @ ?rq \<noteq> ?rp @ assignment ''AD-1'' @ ?rq"
    by (simp add: assignment_def)
  have "write_text w (assignment ''AD-2'') = assignment ''AD-2''"
    by (rule write_text_plain) (simp add: assignment_def)
  with assms(4,5) have wr: "write_text w (?rp @ assignment ''AD-2'' @ ?rq)
      = pre @ assignment ''AD-2'' @ post"
    by (simp add: write_text_append)
  from assms(1) r s d wr show ?thesis
    by (simp add: update_main_tf_def Let_def log_def emit_def)
qed

theorem edit_changes_only_the_line_witness:
  "tfvars (sample_world (Some (''region = 1\<newline>'' @ assignment ''AD-1'' @ ''\<newline>'')) None [])
     = Some (''region = 1\<newline>'' @ assignment ''AD-1'' @ ''\<newline>'')
   \<and> no_match_before (length (read_text ''region = 1\<newline>''))
        (read_text ''region = 1\<newline>'' @ assignment ''AD-1'' @ read_text ''\<newline>'')
   \<and> no_match_before (length (read_text ''\<newline>'')) (read_text ''\<newline>'')
   \<and> write_text (sample_world (Some (''region = 1\<newline>'' @ assignment ''AD-1'' @ ''\<newline>'')) None [])
        (read_text ''region = 1\<newline>'') = ''region = 1\<newline>''
   \<and> write_text (sample_world (Some (''region = 1\<newline>'' @ assignment ''AD-1'' @ ''\<newline>'')) None [])
        (read_text ''\<newline>'') = ''\<newline>''
   \<and> tfvars (snd (update_main_tf ''AD-2''
        (sample_world (Some (''region = 1\<newline>'' @ assignment ''AD-1'' @ ''\<newline>'')) None [])))
     = Some (''region = 1\<newline>'' @ assignment ''AD-2'' @ ''\<newline>'')"
proof -
  let ?pre = "''region = 1\<newline>''"
  let ?post = "''\<newline>''"
  let ?w = "sample_world (Some (?pre @ assignment ''AD-1'' @ ?post)) None []"
  have 1: "tfvars ?w = Some (?pre @ assignment ''AD-1'' @ ?post)"
    by (simp add: sample_world_def)
  have 2: "no_match_before (length (read_text ?pre))
      (read_text ?pre @ assignment ''AD-1'' @ read_text ?post)" by code_simp
  have 3: "no_match_before (length (read_text ?post)) (read_text ?post)" by code_simp
  have 4: "write_text ?w (read_text ?pre) = ?pre" by code_simp
  have 5: "write_text ?w (read_text ?post) = ?post" by code_simp
  from edit_changes_only_the_line [OF 1 2 3 4 5] 1 2 3 4 5 show ?thesis by blast
qed

text \<open>
  Without the first condition the claim fails: a commented-out assignment before the line
  is rewritten as well. Without the second it fails too: where the line separator is the
  line feed, a file whose lines end in carriage return and line feed loses its carriage
  returns.
\<close>

theorem edit_changes_only_the_line_counterexample:
  "tfvars (snd (update_main_tf ''AD-2''
      (sample_world
         (Some ((''# '' @ assignment ''AD-3'' @ ''\<newline>'') @ assignment ''AD-1'' @ ''\<newline>''))
         None [])))
     = Some (''# '' @ assignment ''AD-2'' @ ''\<newline>'' @ assignment ''AD-2'' @ ''\<newline>'')
   \<and> ''# '' @ assignment ''AD-2'' @ ''\<newline>'' @ assignment ''AD-2'' @ ''\<newline>''
     \<noteq> (''# '' @ assignment ''AD-3'' @ ''\<newline>'') @ assignment ''AD-1'' @ ''\<newline>''
   \<and> ''# '' @ assignment ''AD-2'' @ ''\<newline>'' @ assignment ''AD-2'' @ ''\<newline>''
     \<noteq> (''# '' @ assignment ''AD-3'' @ ''\<newline>'') @ assignment ''AD-2'' @ ''\<newline>''
   \<and> tfvars (snd (update_main_tf ''AD-2''
      (sample_world
         (Some ((''region = 1'' @ [CR, LF]) @ assignment ''AD-1'' @ [CR, LF]))
         None [])))
     = Some (''region = 1'' @ [LF] @ assignment ''AD-2'' @ [LF])
   \<and> ''region = 1'' @ [LF] @ assignment ''AD-2'' @ [LF]
     \<noteq> (''region = 1'' @ [CR, LF]) @ assignment ''AD-2'' @ [CR, LF]"
  by code_simp

text \<open>
  Two cases of the editor that do not depend on how a file without a change is treated:
  a primary file whose text changes is written and the legacy file is left alone; when
  no existing file has a match, no file changes and the last event is a warning.
\<close>

lemma update_main_tf_primary_changed:
  assumes "tfvars w = Some on_disk" "backslash \<notin> set ad"
    and "sub_all (\<lambda>matched. assignment ad) (read_text on_disk) \<noteq> read_text on_disk"
  shows "update_main_tf ad w =
    (Inr (),
     log Info ''Updated terraform.tfvars with availability domain: %s'' [S ad]
       (emit (WriteText ''terraform.tfvars'' (sub_all (\<lambda>matched. assignment ad) (read_text on_disk)))
          (w\<lparr>tfvars :=
               Some (write_text w (sub_all (\<lambda>matched. assignment ad) (read_text on_disk)))\<rparr>)))"
  using assms by (simp add: update_main_tf_def Let_def re_sub_assignment)

lemma update_main_tf_no_match:
  assumes "backslash \<notin> set ad"
    and "case tfvars w of None \<Rightarrow> True
         | Some c \<Rightarrow> no_match_before (length (read_text c)) (read_text c)"
    and "case main_tf w of None \<Rightarrow> True
         | Some c \<Rightarrow> no_match_before (length (read_text c)) (read_text c)"
  shows "\<exists>evs m. update_main_tf ad w = (Inr (), w\<lparr>trace := trace w @ evs @ [Log Warning m []]\<rparr>)
    \<and> list_all inert evs"
proof -
  have l: "\<exists>m. update_legacy ad v = (Inr (), v\<lparr>trace := trace v @ [Log Warning m []]\<rparr>)"
    if "main_tf v = main_tf w" for v
    using assms(1,3) that
    by (auto simp: update_legacy_def Let_def re_sub_assignment sub_all_unmatched log_def emit_def
        split: option.splits)
  show ?thesis
  proof (cases "tfvars w")
    case None
    with l [of w] obtain m where "update_main_tf ad w = (Inr (), w\<lparr>trace := trace w @ [] @ [Log Warning m []]\<rparr>)"
      by (auto simp: update_main_tf_def)
    then show ?thesis by (intro exI [of _ "[]"] exI [of _ m]) simp
  next
    case (Some c)
    let ?v = "log Warning ''Could not find availability_domain line in terraform.tfvars to update'' [] w"
    from l [of ?v] obtain m where "update_legacy ad ?v = (Inr (), ?v\<lparr>trace := trace ?v @ [Log Warning m []]\<rparr>)"
      by (auto simp: log_def emit_def)
    with Some assms(1,2) have "update_main_tf ad w
        = (Inr (), w\<lparr>trace := trace w
             @ [Log Warning ''Could not find availability_domain line in terraform.tfvars to update'' []]
             @ [Log Warning m []]\<rparr>)"
      by (simp add: update_main_tf_def Let_def re_sub_assignment sub_all_unmatched log_def emit_def)
    then show ?thesis
      by (intro exI [of _ "[Log Warning ''Could not find availability_domain line in terraform.tfvars to update'' []]"]
          exI [of _ m]) simp
  qed
qed

text \<open>
  C4 fails where the primary file holds the assignment with the target zone already: the
  text does not change, the editor reports that it could not find the line, and it goes on
  to rewrite the legacy file although the primary file has the key.
\<close>

theorem unchanged_primary_falls_back:
  "re_search (assignment ''AD-1'' @ ''\<newline>'') = Some ''AD-1''
   \<and> update_main_tf ''AD-1''
       (sample_world (Some (assignment ''AD-1'' @ ''\<newline>'')) (Some (assignment ''AD-2'' @ ''\<newline>'')) [])
     = (Inr (),
        (sample_world (Some (assignment ''AD-1'' @ ''\<newline>'')) (Some (assignment ''AD-2'' @ ''\<newline>'')) [])
          \<lparr>main_tf := Some (assignment ''AD-1'' @ ''\<newline>''),
           trace :=
             [Log Warning ''Could not find availability_domain line in terraform.tfvars to update'' [],
              WriteText ''main.tf'' (assignment ''AD-1'' @ ''\<newline>''),
              Log Info ''Updated main.tf with availability domain: %s'' [S ''AD-1'']]\<rparr>)"
proof -
  let ?one = "assignment ''AD-1'' @ ''\<newline>''" and ?two = "assignment ''AD-2'' @ ''\<newline>''"
  have g: "re_search ?one = Some ''AD-1''" by code_simp
  have r: "read_text ?one = ?one" "read_text ?two = ?two" by code_simp+
  have s: "re_sub (assignment ''AD-1'') ?one = Inr ?one"
    "re_sub (assignment ''AD-1'') ?two = Inr ?one"
    by code_simp+
  have d: "?one \<noteq> ?two" by code_simp
  have "update_main_tf ''AD-1'' (sample_world (Some ?one) (Some ?two) [])
     = (Inr (),
        (sample_world (Some ?one) (Some ?two) [])
          \<lparr>main_tf := Some ?one,
           trace :=
             [Log Warning ''Could not find availability_domain line in terraform.tfvars to update'' [],
              WriteText ''main.tf'' ?one,
              Log Info ''Updated main.tf with availability domain: %s'' [S ''AD-1'']]\<rparr>)"
    using d
    by (simp add: update_main_tf_def update_legacy_def Let_def r s write_text_line_feed
        sample_world_def log_def emit_def)
  with g show ?thesis by (rule conjI)
qed

end
